theory Spec2Isabelle
  imports Main "HOL-Library.Sublist"
begin

section \<open>Name Resolver\<close>

text \<open>
  A JavaScript string is modelled as the \<^typ>\<open>string\<close> of its UTF-8 bytes. The regular
  expressions of this section name ASCII characters only (letters, digits, \<open>_\<close>, \<open>$\<close>,
  \<open>{\<close>, \<open>}\<close>), and no byte of the encoding of another character is one of these; so a
  match found code unit by code unit in the JavaScript string and one found byte by byte
  here begin and end at the same characters.
\<close>

subsection \<open>sanitizeToolName\<close>

text \<open>The character class \<open>[a-zA-Z0-9_]\<close> of the first regular expression.\<close>

definition is_upper :: "char \<Rightarrow> bool" where
  "is_upper c \<longleftrightarrow> 65 \<le> (of_char c :: nat) \<and> (of_char c :: nat) \<le> 90"

definition is_lower :: "char \<Rightarrow> bool" where
  "is_lower c \<longleftrightarrow> 97 \<le> (of_char c :: nat) \<and> (of_char c :: nat) \<le> 122"

definition is_digit :: "char \<Rightarrow> bool" where
  "is_digit c \<longleftrightarrow> 48 \<le> (of_char c :: nat) \<and> (of_char c :: nat) \<le> 57"

definition is_word_char :: "char \<Rightarrow> bool" where
  "is_word_char c \<longleftrightarrow> is_lower c \<or> is_upper c \<or> is_digit c \<or> c = CHR ''_''"

text \<open>
  \<open>s.replace(/[^a-zA-Z0-9_]/g, "_")\<close>. A character outside ASCII becomes one or two
  underscores in JavaScript (its code units) and two to four here (its bytes): a run of
  underscores either way, which the next step makes one.
\<close>

definition replace_non_word :: "string \<Rightarrow> string" where
  "replace_non_word s = map (\<lambda>c. if is_word_char c then c else CHR ''_'') s"

text \<open>
  \<open>s.replace(/_+/g, "_")\<close>: at an underscore the match is the whole run of underscores
  that starts there; it is replaced by one underscore and the scan goes on behind the run.
\<close>

function collapse_underscores :: "string \<Rightarrow> string" where
  "collapse_underscores [] = []"
| "collapse_underscores (c # cs) =
     (if c = CHR ''_''
      then CHR ''_'' # collapse_underscores (dropWhile (\<lambda>x. x = CHR ''_'') cs)
      else c # collapse_underscores cs)"
  by pat_completeness auto
termination
  by (relation "measure length") (auto simp: le_imp_less_Suc length_dropWhile_le)

text \<open>
  \<open>s.replace(/^_|_$/g, "")\<close>: one underscore at the very start and one at the very end
  are removed (the underscore of the one-character string \<open>"_"\<close> is removed once).
\<close>

definition strip_underscores :: "string \<Rightarrow> string" where
  "strip_underscores s =
     (let s1 = (case s of [] \<Rightarrow> [] | c # cs \<Rightarrow> if c = CHR ''_'' then cs else s)
      in if s1 \<noteq> [] \<and> last s1 = CHR ''_'' then butlast s1 else s1)"

text \<open>
  \<open>toLowerCase()\<close> on the ASCII letters. Inside \<open>sanitize\<close> its argument holds only
  characters of \<open>[a-zA-Z0-9_]\<close> (lemma \<open>replace_non_word_chars\<close> and its successors below),
  so the Unicode case mapping of other code units is never reached.
\<close>

definition lower_char :: "char \<Rightarrow> char" where
  "lower_char c = (if is_upper c then char_of ((of_char c :: nat) + 32) else c)"

definition toLowerCase :: "string \<Rightarrow> string" where
  "toLowerCase s = map lower_char s"

definition sanitize :: "string \<Rightarrow> string" where
  "sanitize s = toLowerCase (strip_underscores (collapse_underscores (replace_non_word s)))"

definition sanitizeToolName :: "string \<Rightarrow> string \<Rightarrow> bool \<Rightarrow> string" where
  "sanitizeToolName serverName toolName usePrefix =
     (if usePrefix then sanitize serverName @ ''_'' @ sanitize toolName
      else sanitize toolName)"

subsection \<open>Members inherited from \<open>Object.prototype\<close>\<close>

text \<open>
  A property read \<open>o[key]\<close> on a plain object, and on \<open>process.env\<close>, finds the members
  that the object inherits from \<open>Object.prototype\<close> where the object has no property of
  its own under that key. These are the members and the strings that \<open>String\<close> makes of
  them: the text of a built-in function (the wording is V8's), and \<open>[object Object]\<close>
  for the prototype itself, which \<open>__proto__\<close> yields.
\<close>

definition native_function :: "string \<Rightarrow> string" where
  "native_function f = ''function '' @ f @ ''() { [native code] }''"

definition Object_prototype :: "(string \<times> string) list" where
  "Object_prototype =
     [(''constructor'', native_function ''Object''),
      (''__defineGetter__'', native_function ''__defineGetter__''),
      (''__defineSetter__'', native_function ''__defineSetter__''),
      (''hasOwnProperty'', native_function ''hasOwnProperty''),
      (''__lookupGetter__'', native_function ''__lookupGetter__''),
      (''__lookupSetter__'', native_function ''__lookupSetter__''),
      (''isPrototypeOf'', native_function ''isPrototypeOf''),
      (''propertyIsEnumerable'', native_function ''propertyIsEnumerable''),
      (''toString'', native_function ''toString''),
      (''valueOf'', native_function ''valueOf''),
      (''__proto__'', ''[object Object]''),
      (''toLocaleString'', native_function ''toLocaleString'')]"

definition inherited :: "string \<Rightarrow> bool" where
  "inherited key \<longleftrightarrow> key \<in> set (map fst Object_prototype)"

subsection \<open>resolveEnvVars\<close>

text \<open>
  One attempt of the regular expression \<open>/\$\{([^}]+)\}/\<close> at the start of a string: the
  two characters \<open>${\<close>, then the longest run of characters other than \<open>}\<close>, which must
  not be empty and must be followed by \<open>}\<close>. A shorter run cannot match, since the
  character behind it is not \<open>}\<close>. The result is the captured name and the text behind
  the match.
\<close>

definition match_placeholder :: "string \<Rightarrow> (string \<times> string) option" where
  "match_placeholder s =
     (case s of
        c1 # c2 # r \<Rightarrow>
          if c1 = CHR ''$'' \<and> c2 = CHR ''{''
          then (let varName = takeWhile (\<lambda>x. x \<noteq> CHR ''}'') r;
                    after = dropWhile (\<lambda>x. x \<noteq> CHR ''}'') r
                in if varName \<noteq> [] \<and> after \<noteq> [] then Some (varName, tl after) else None)
          else None
      | _ \<Rightarrow> None)"

text \<open>
  \<open>process.env[varName]\<close>: the value of the variable when it is set (\<open>vars\<close> maps the
  names of the variables that are set to their values); otherwise the inherited member
  of that name, as a string; otherwise \<open>undefined\<close>.
\<close>

definition process_env :: "(string \<rightharpoonup> string) \<Rightarrow> string \<Rightarrow> string option" where
  "process_env vars varName =
     (case vars varName of Some v \<Rightarrow> Some v | None \<Rightarrow> map_of Object_prototype varName)"

text \<open>
  \<open>value.replace(/\$\{([^}]+)\}/g, (_match, varName) => process.env[varName] ?? "")\<close>:
  the scan goes from left to right; where the expression matches, the match is replaced
  by the value of the replacer function, made a string (taken literally, and not
  scanned again), and the scan goes on behind the match; elsewhere the character is
  copied.
\<close>

function resolveEnvVars :: "(string \<rightharpoonup> string) \<Rightarrow> string \<Rightarrow> string" where
  "resolveEnvVars env [] = []"
| "resolveEnvVars env (c # cs) =
     (case match_placeholder (c # cs) of
        Some (varName, rest) \<Rightarrow>
          (case process_env env varName of Some v \<Rightarrow> v | None \<Rightarrow> [])
          @ resolveEnvVars env rest
      | None \<Rightarrow> c # resolveEnvVars env cs)"
  by pat_completeness auto
termination
proof (relation "measure (\<lambda>(env, s). length s)")
  show "wf (measure (\<lambda>(env :: string \<rightharpoonup> string, s :: string). length s))"
    by simp
next
  fix env :: "string \<rightharpoonup> string" and c :: char and cs x2 varName rest
  assume "match_placeholder (c # cs) = Some x2" and "(varName, rest) = x2"
  then have m: "match_placeholder (c # cs) = Some (varName, rest)"
    by simp
  have "length (tl (dropWhile P r)) < Suc (Suc (length r))" for P and r :: string
    using length_dropWhile_le [of P r] by simp
  with m have "length rest < length (c # cs)"
    by (auto simp: match_placeholder_def Let_def split: list.splits if_splits)
  then show "((env, rest), (env, c # cs)) \<in> measure (\<lambda>(env, s). length s)"
    by simp
next
  fix env :: "string \<rightharpoonup> string" and c :: char and cs
  show "((env, cs), (env, c # cs)) \<in> measure (\<lambda>(env, s). length s)"
    by simp
qed

text \<open>
  The words of the specification: a placeholder \<open>${NAME}\<close>, where NAME is what the
  expression can capture (one character or more, none of them \<open>}\<close>); a string that starts
  with a placeholder; a string in which a placeholder occurs.
\<close>

definition placeholder :: "string \<Rightarrow> string" where
  "placeholder varName = ''${'' @ varName @ ''}''"

definition valid_name :: "string \<Rightarrow> bool" where
  "valid_name varName \<longleftrightarrow> varName \<noteq> [] \<and> CHR ''}'' \<notin> set varName"

definition starts_with_placeholder :: "string \<Rightarrow> bool" where
  "starts_with_placeholder s \<longleftrightarrow>
     (\<exists>varName post. valid_name varName \<and> s = placeholder varName @ post)"

definition has_placeholder :: "string \<Rightarrow> bool" where
  "has_placeholder s \<longleftrightarrow> (\<exists>pre suf. s = pre @ suf \<and> starts_with_placeholder suf)"

section \<open>Values and thrown values\<close>

text \<open>
  The values that cross the boundary to a tool server and to the cache file are
  JSON-like. Numbers are opaque to the bridge except for the comparison of the cache
  version with \<open>1\<close>.
\<close>

datatype jsval =
    Undefined
  | Null
  | Bool bool
  | Num int
  | Str string
  | Arr "jsval list"
  | Obj "(string \<times> jsval) list"

text \<open>
  A thrown value, as the \<open>catch\<close> clause of \<open>execute\<close> reads it. Any value can be thrown
  and can reject a promise: \<open>undefined\<close>, \<open>null\<close>, or another value. Of a value on which
  the reads of the \<open>catch\<close> clause succeed, \<open>Thrown m str\<close> keeps \<open>err.message\<close> (\<open>None\<close> when
  it is undefined or null; the string it makes in a template otherwise) and
  \<open>String(err)\<close>. \<open>Thrown_raising e\<close> is a value on which these reads throw \<open>e\<close> themselves:
  an object without a prototype and without a message, which \<open>String(err)\<close> cannot
  convert, or an object whose message is a symbol or comes from a getter that throws.
\<close>

datatype thrown =
    Thrown_undefined
  | Thrown_null
  | Thrown "string option" string
  | Thrown_raising thrown

definition apostrophe :: string where
  "apostrophe = [CHR 0x27]"

text \<open>\<open>new Error(msg)\<close>\<close>

definition Error :: "string \<Rightarrow> thrown" where
  "Error msg = Thrown (Some msg) (''Error: '' @ msg)"

text \<open>The \<open>TypeError\<close> of a property read on \<open>null\<close> or \<open>undefined\<close> (the wording is V8's).\<close>

definition TypeError_read :: "string \<Rightarrow> string \<Rightarrow> thrown" where
  "TypeError_read what key =
     (let msg = ''Cannot read properties of '' @ what @ '' (reading '' @ apostrophe @ key
                @ apostrophe @ '')''
      in Thrown (Some msg) (''TypeError: '' @ msg))"

text \<open>
  The property read \<open>v.key\<close> for the two keys the handlers read, \<open>content\<close> and \<open>isError\<close>:
  an own property of an object, \<open>undefined\<close> on an object without it and on a string,
  number, boolean or array (no prototype has these two keys), a \<open>TypeError\<close> on \<open>null\<close>
  and \<open>undefined\<close>.
\<close>

definition own_prop :: "jsval \<Rightarrow> string \<Rightarrow> jsval" where
  "own_prop v key =
     (case v of
        Obj fields \<Rightarrow> (case map_of fields key of Some x \<Rightarrow> x | None \<Rightarrow> Undefined)
      | _ \<Rightarrow> Undefined)"

definition read_prop :: "jsval \<Rightarrow> string \<Rightarrow> thrown + jsval" where
  "read_prop v key =
     (case v of
        Undefined \<Rightarrow> Inl (TypeError_read ''undefined'' key)
      | Null \<Rightarrow> Inl (TypeError_read ''null'' key)
      | _ \<Rightarrow> Inr (own_prop v key))"

text \<open>The operand test of \<open>??\<close>.\<close>

definition nullish :: "jsval \<Rightarrow> bool" where
  "nullish v \<longleftrightarrow> v = Undefined \<or> v = Null"

section \<open>Configuration\<close>

record ServerConfig =
  command :: "string option"
  args :: "string list option"
  env :: "(string \<times> string) list option"
  url :: "string option"
  headers :: "(string \<times> string) list option"
  enabled :: "bool option"
  toolPrefix :: "bool option"

text \<open>
  \<open>config.servers ?? {}\<close> is a plain object with the configured servers as its own
  properties.
\<close>

record PluginConfig =
  servers :: "(string \<rightharpoonup> ServerConfig) option"
  optional :: "bool option"

text \<open>
  What the code gets where \<open>servers[serverName]\<close> finds an inherited member: a function,
  or the prototype, which is truthy and has none of the properties of a server
  configuration.
\<close>

definition inherited_member :: ServerConfig where
  "inherited_member =
     \<lparr>command = None, args = None, env = None, url = None, headers = None,
      enabled = None, toolPrefix = None\<rparr>"

text \<open>
  \<open>servers[serverName]\<close>: the configuration of that name; otherwise the inherited member
  of that name; otherwise \<open>undefined\<close>.
\<close>

definition config_servers :: "PluginConfig \<Rightarrow> (string \<rightharpoonup> ServerConfig)" where
  "config_servers config serverName =
     (case (case servers config of Some m \<Rightarrow> m serverName | None \<Rightarrow> None) of
        Some serverConfig \<Rightarrow> Some serverConfig
      | None \<Rightarrow> if inherited serverName then Some inherited_member else None)"

definition config_optional :: "PluginConfig \<Rightarrow> bool" where
  "config_optional config = (case optional config of Some b \<Rightarrow> b | None \<Rightarrow> False)"

text \<open>The truth value of an optional string: \<open>undefined\<close> and \<open>""\<close> are falsy.\<close>

definition truthy :: "string option \<Rightarrow> bool" where
  "truthy v \<longleftrightarrow> (case v of None \<Rightarrow> False | Some s \<Rightarrow> s \<noteq> [])"

section \<open>Tool Router: the invocation handlers\<close>

record tool_result =
  content :: jsval
  isError :: bool

definition text_item :: "string \<Rightarrow> jsval" where
  "text_item t = Obj [(''type'', Str ''text''), (''text'', Str t)]"

text \<open>
  The \<open>return\<close> of the \<open>try\<close> block, the same in both variants:
  \<open>content: result.content ?? [{type: "text", text: JSON.stringify(result)}]\<close> and
  \<open>isError: result.isError === true\<close>. \<open>JSON.stringify\<close> is the parameter \<open>stringify\<close>.
\<close>

definition call_result :: "(jsval \<Rightarrow> string) \<Rightarrow> jsval \<Rightarrow> thrown + tool_result" where
  "call_result stringify result =
     (case read_prop result ''content'' of
        Inl err \<Rightarrow> Inl err
      | Inr c \<Rightarrow>
          (case read_prop result ''isError'' of
             Inl err \<Rightarrow> Inl err
           | Inr flag \<Rightarrow>
               Inr \<lparr>content = (if nullish c then Arr [text_item (stringify result)] else c),
                    isError = (flag = Bool True)\<rparr>))"

text \<open>
  The \<open>catch\<close> clause, the same in both variants: it returns
  \<open>{content: [{type: "text",
     text: `MCP error (${serverName}/${mcpToolName}): ${err.message ?? String(err)}`}],
    isError: true}\<close>.
  Reading \<open>err.message\<close> raises a \<open>TypeError\<close> when \<open>err\<close> is \<open>undefined\<close> or \<open>null\<close>; it is
  raised inside the \<open>catch\<close> clause, so the handler throws it, as it throws what the reads
  of any other value raise.
\<close>

definition error_text :: "string \<Rightarrow> string \<Rightarrow> string option \<Rightarrow> string \<Rightarrow> string" where
  "error_text serverName mcpToolName msg str =
     ''MCP error ('' @ serverName @ ''/'' @ mcpToolName @ ''): ''
     @ (case msg of Some m \<Rightarrow> m | None \<Rightarrow> str)"

definition catch_clause :: "string \<Rightarrow> string \<Rightarrow> thrown \<Rightarrow> thrown + tool_result" where
  "catch_clause serverName mcpToolName err =
     (case err of
        Thrown_undefined \<Rightarrow> Inl (TypeError_read ''undefined'' ''message'')
      | Thrown_null \<Rightarrow> Inl (TypeError_read ''null'' ''message'')
      | Thrown msg str \<Rightarrow>
          Inr \<lparr>content = Arr [text_item (error_text serverName mcpToolName msg str)],
               isError = True\<rparr>
      | Thrown_raising e \<Rightarrow> Inl e)"

text \<open>
  \<open>execute\<close> of the deferred variant. \<open>got\<close> is the outcome of \<open>await getClient(serverName)\<close>
  and \<open>callTool client name arguments\<close> the outcome of \<open>await client.callTool(...)\<close>. The
  result is \<open>Inr\<close> of what the handler returns, or \<open>Inl\<close> of a value thrown past it.
\<close>

definition execute ::
  "(jsval \<Rightarrow> string) \<Rightarrow> string \<Rightarrow> string \<Rightarrow> jsval \<Rightarrow> thrown + 'client
     \<Rightarrow> ('client \<Rightarrow> string \<Rightarrow> jsval \<Rightarrow> thrown + jsval) \<Rightarrow> thrown + tool_result" where
  "execute stringify serverName mcpToolName params got callTool =
     (case (case got of
              Inl err \<Rightarrow> Inl err
            | Inr client \<Rightarrow>
                (case callTool client mcpToolName params of
                   Inl err \<Rightarrow> Inl err
                 | Inr result \<Rightarrow> call_result stringify result)) of
        Inl err \<Rightarrow> catch_clause serverName mcpToolName err
      | Inr r \<Rightarrow> Inr r)"

text \<open>
  \<open>execute\<close> of the eager variant. \<open>serverClient\<close> is \<open>clients.get(serverName)\<close>.
\<close>

definition not_connected_text :: "string \<Rightarrow> string" where
  "not_connected_text serverName =
     ''Error: MCP server '' @ apostrophe @ serverName @ apostrophe @ '' is not connected''"

definition not_connected :: "string \<Rightarrow> tool_result" where
  "not_connected serverName =
     \<lparr>content = Arr [text_item (not_connected_text serverName)], isError = True\<rparr>"

definition execute_eager ::
  "(jsval \<Rightarrow> string) \<Rightarrow> string \<Rightarrow> string \<Rightarrow> jsval \<Rightarrow> 'client option
     \<Rightarrow> ('client \<Rightarrow> string \<Rightarrow> jsval \<Rightarrow> thrown + jsval) \<Rightarrow> thrown + tool_result" where
  "execute_eager stringify serverName mcpToolName params serverClient callTool =
     (case serverClient of
        None \<Rightarrow> Inr (not_connected serverName)
      | Some client \<Rightarrow>
          (case (case callTool client mcpToolName params of
                   Inl err \<Rightarrow> Inl err
                 | Inr result \<Rightarrow> call_result stringify result) of
             Inl err \<Rightarrow> catch_clause serverName mcpToolName err
           | Inr r \<Rightarrow> Inr r))"

section \<open>Tool Router: registration\<close>

subsection \<open>The persisted catalog\<close>

record CachedTool =
  name :: string
  description :: "string option"
  inputSchema :: "jsval option"

record CacheEntry =
  server :: string
  tools :: "CachedTool list"
  discoveredAt :: string

text \<open>
  The field \<open>servers\<close> of the interface \<open>Cache\<close> is \<open>entries\<close> here, \<open>servers\<close> being the
  field of \<open>PluginConfig\<close>.
\<close>

record Cache =
  version :: jsval
  entries :: "CacheEntry list"

text \<open>
  What \<open>JSON.parse(raw) as Cache\<close> yields. \<open>loadCache\<close> tests the version and that
  \<open>servers\<close> is an array, and these two are left open; the elements of the array are
  taken to be of the declared type \<open>CacheEntry\<close>, which the code does not test. In
  \<open>JsonObject v s\<close>, \<open>v\<close> is the value of the property \<open>version\<close> (\<open>Undefined\<close> when the
  object has none) and \<open>s\<close> that of the property \<open>servers\<close>. \<open>JsonOther\<close> is a parsed
  string, number, boolean or array, on which both properties are undefined.
\<close>

datatype servers_field = NotArray jsval | ServerArray "CacheEntry list"

datatype cache_doc = JsonNull | JsonOther jsval | JsonObject jsval servers_field

text \<open>
  The cache file as \<open>loadCache\<close> meets it: \<open>readFileSync\<close> throws, \<open>JSON.parse\<close> throws,
  or a document is parsed.
\<close>

datatype cache_file = Unreadable thrown | Malformed thrown | Parsed cache_doc

text \<open>The \<open>try\<close> block of \<open>loadCache\<close>, and \<open>loadCache\<close> with its \<open>catch\<close>.\<close>

definition loadCache_try :: "cache_file \<Rightarrow> thrown + Cache option" where
  "loadCache_try file =
     (case file of
        Unreadable err \<Rightarrow> Inl err
      | Malformed err \<Rightarrow> Inl err
      | Parsed JsonNull \<Rightarrow> Inl (TypeError_read ''null'' ''version'')
      | Parsed (JsonOther v) \<Rightarrow> Inr None
      | Parsed (JsonObject v s) \<Rightarrow>
          (case s of
             NotArray x \<Rightarrow> Inr None
           | ServerArray es \<Rightarrow>
               if v \<noteq> Num 1 then Inr None else Inr (Some \<lparr>version = v, entries = es\<rparr>)))"

definition loadCache :: "cache_file \<Rightarrow> Cache option" where
  "loadCache file = (case loadCache_try file of Inl err \<Rightarrow> None | Inr cache \<Rightarrow> cache)"

subsection \<open>The deferred variant: \<open>register\<close>\<close>

text \<open>
  What \<open>register\<close> hands to the host: the tools passed to \<open>api.registerTool\<close>, in order,
  each with the two variables its handler closes over (\<open>serverName\<close> and \<open>mcpToolName\<close>)
  and the \<open>optional\<close> flag; the log; and whether \<open>api.registerService\<close> was called.
\<close>

record registered_tool =
  tool_name :: string
  tool_description :: string
  tool_parameters :: jsval
  tool_server :: string
  tool_remote :: string
  tool_optional :: bool

datatype log_line = Warn_no_cache | Info_registered nat nat

record host =
  registered :: "registered_tool list"
  logged :: "log_line list"
  service :: bool

definition default_schema :: jsval where
  "default_schema = Obj [(''type'', Str ''object''), (''properties'', Obj [])]"

text \<open>
  \<open>[tool.description ?? `MCP tool from ${serverName}`,
     `(MCP: ${serverName}/${mcpToolName})`].join(" ")\<close>
\<close>

definition describe :: "string \<Rightarrow> CachedTool \<Rightarrow> string" where
  "describe serverName tool =
     (case description tool of Some d \<Rightarrow> d | None \<Rightarrow> ''MCP tool from '' @ serverName)
     @ '' '' @ (''(MCP: '' @ serverName @ ''/'' @ name tool @ '')'')"

text \<open>The body of the inner loop, for one tool of a server that is not skipped.\<close>

definition register_tool :: "bool \<Rightarrow> string \<Rightarrow> bool \<Rightarrow> CachedTool \<Rightarrow> registered_tool" where
  "register_tool optionalTools serverName usePrefix tool =
     \<lparr>tool_name = sanitizeToolName serverName (name tool) usePrefix,
      tool_description = describe serverName tool,
      tool_parameters = (case inputSchema tool of Some schema \<Rightarrow> schema | None \<Rightarrow> default_schema),
      tool_server = serverName,
      tool_remote = name tool,
      tool_optional = optionalTools\<rparr>"

text \<open>The body of the outer loop, for one entry of the cache.\<close>

definition register_entry :: "PluginConfig \<Rightarrow> CacheEntry \<Rightarrow> registered_tool list" where
  "register_entry config cacheEntry =
     (case config_servers config (server cacheEntry) of
        None \<Rightarrow> []
      | Some serverConfig \<Rightarrow>
          if enabled serverConfig = Some False then []
          else map (register_tool (config_optional config) (server cacheEntry)
                      (toolPrefix serverConfig \<noteq> Some False))
                 (tools cacheEntry))"

definition register :: "PluginConfig \<Rightarrow> cache_file \<Rightarrow> host" where
  "register config file =
     (case loadCache file of
        None \<Rightarrow> \<lparr>registered = [], logged = [Warn_no_cache], service = False\<rparr>
      | Some cache \<Rightarrow>
          if length (entries cache) = 0
          then \<lparr>registered = [], logged = [Warn_no_cache], service = False\<rparr>
          else (let regs = concat (map (register_entry config) (entries cache))
                in \<lparr>registered = regs,
                    logged = [Info_registered (length regs) (length (entries cache))],
                    service = True\<rparr>))"

subsection \<open>The eager variant: the registration loop of \<open>connectServer\<close>\<close>

text \<open>
  \<open>[tool.description ?? `MCP tool from ${serverName}`,
     prefix ? `(MCP: ${serverName}/${mcpToolName})` : `(MCP: ${serverName})`].join(" ")\<close>
\<close>

definition describe_eager :: "string \<Rightarrow> CachedTool \<Rightarrow> bool \<Rightarrow> string" where
  "describe_eager serverName tool usePrefix =
     (case description tool of Some d \<Rightarrow> d | None \<Rightarrow> ''MCP tool from '' @ serverName)
     @ '' '' @ (if usePrefix then ''(MCP: '' @ serverName @ ''/'' @ name tool @ '')''
                else ''(MCP: '' @ serverName @ '')'')"

text \<open>
  The tools that \<open>connectServer\<close> registers once \<open>client.connect\<close> and \<open>client.listTools\<close>
  have succeeded; \<open>listed\<close> is \<open>toolsResult.tools ?? []\<close> (the interface \<open>McpTool\<close> has the
  fields of \<open>CachedTool\<close>).
\<close>

definition register_eager ::
  "PluginConfig \<Rightarrow> string \<Rightarrow> ServerConfig \<Rightarrow> CachedTool list \<Rightarrow> registered_tool list" where
  "register_eager config serverName serverConfig listed =
     (let usePrefix = (toolPrefix serverConfig \<noteq> Some False)
      in map (\<lambda>tool.
           \<lparr>tool_name = sanitizeToolName serverName (name tool) usePrefix,
            tool_description = describe_eager serverName tool usePrefix,
            tool_parameters =
              (case inputSchema tool of Some schema \<Rightarrow> schema | None \<Rightarrow> default_schema),
            tool_server = serverName,
            tool_remote = name tool,
            tool_optional = config_optional config\<rparr>) listed)"

section \<open>Connection Pool\<close>

text \<open>
  The pool of the deferred variant: the maps \<open>clients\<close> and \<open>connecting\<close>, \<open>getClient\<close>,
  and \<open>stop\<close>. JavaScript runs one piece of code at a time, and hands control over only
  at an \<open>await\<close>; the pool is therefore a state machine whose steps are the pieces of
  code between two suspension points, taken in any order.

  Every call of \<open>connectServer\<close> is recorded in \<open>attempts\<close>, with the server name and the
  state of the promise it returned; a promise is named by the position of its attempt,
  and so is the \<open>Client\<close> object that the attempt creates.
\<close>

type_synonym client = nat

datatype promise_state = Pending | Fulfilled client | Rejected thrown

text \<open>
  A call of \<open>getClient\<close>: suspended at \<open>await promise\<close> for the attempt it started;
  returned with the promise it found in \<open>connecting\<close> (\<open>return pending\<close>), which its own
  promise follows and has not followed yet; or finished, its promise settled with the
  client it returns or the value it throws.
\<close>

datatype call_state = Awaiting string nat | Adopted nat | Finished "thrown + client"

record pool =
  clients :: "string \<rightharpoonup> client"
  connecting :: "string \<rightharpoonup> nat"
  attempts :: "(string \<times> promise_state) list"
  calls :: "nat \<rightharpoonup> call_state"
  closed :: "client list"

definition init :: pool where
  "init = \<lparr>clients = Map.empty, connecting = Map.empty, attempts = [], calls = Map.empty,
           closed = []\<rparr>"

text \<open>
  \<open>connectServer\<close> up to its first suspension point. With a command or a URL the
  returned promise is pending (it settles with the outcome of \<open>client.connect\<close>, or with
  what the import of the SSE transport or \<open>new URL\<close> throw); with neither, the function
  throws at once and the returned promise is rejected.
\<close>

definition connectServer_start :: "string \<Rightarrow> ServerConfig \<Rightarrow> promise_state" where
  "connectServer_start serverName serverConfig =
     (if truthy (command serverConfig) then Pending
      else if truthy (url serverConfig) then Pending
      else Rejected (Error (''Server '' @ serverName @ '': must specify '' @ apostrophe
                            @ ''command'' @ apostrophe @ '' or '' @ apostrophe @ ''url''
                            @ apostrophe)))"

definition promise_of :: "pool \<Rightarrow> nat \<Rightarrow> promise_state" where
  "promise_of p n = (if n < length (attempts p) then snd (attempts p ! n) else Pending)"

text \<open>
  \<open>getClient(serverName)\<close> from its call to its first suspension point or return; \<open>i\<close>
  names the call.
\<close>

definition getClient_call :: "PluginConfig \<Rightarrow> nat \<Rightarrow> string \<Rightarrow> pool \<Rightarrow> pool" where
  "getClient_call config i serverName p =
     (case clients p serverName of
        Some existing \<Rightarrow> p\<lparr>calls := (calls p)(i \<mapsto> Finished (Inr existing))\<rparr>
      | None \<Rightarrow>
          (case connecting p serverName of
             Some pending \<Rightarrow> p\<lparr>calls := (calls p)(i \<mapsto> Adopted pending)\<rparr>
           | None \<Rightarrow>
               (case config_servers config serverName of
                  None \<Rightarrow>
                    p\<lparr>calls := (calls p)(i \<mapsto> Finished (Inl (Error
                         (''No config for MCP server '' @ apostrophe @ serverName
                          @ apostrophe))))\<rparr>
                | Some serverConfig \<Rightarrow>
                    (let promise = length (attempts p)
                     in p\<lparr>attempts :=
                            attempts p @ [(serverName, connectServer_start serverName serverConfig)],
                          connecting := (connecting p)(serverName \<mapsto> promise),
                          calls := (calls p)(i \<mapsto> Awaiting serverName promise)\<rparr>))))"

text \<open>
  \<open>getClient\<close> from \<open>await promise\<close> to its end, once the promise is settled: on success
  \<open>clients.set\<close> and the \<open>return\<close>, and in both cases the \<open>finally\<close> clause.
\<close>

definition getClient_resume :: "nat \<Rightarrow> pool \<Rightarrow> pool" where
  "getClient_resume i p =
     (case calls p i of
        Some (Awaiting serverName promise) \<Rightarrow>
          (case promise_of p promise of
             Pending \<Rightarrow> p
           | Fulfilled client \<Rightarrow>
               p\<lparr>clients := (clients p)(serverName \<mapsto> client),
                 connecting := (connecting p)(serverName := None),
                 calls := (calls p)(i \<mapsto> Finished (Inr client))\<rparr>
           | Rejected err \<Rightarrow>
               p\<lparr>connecting := (connecting p)(serverName := None),
                 calls := (calls p)(i \<mapsto> Finished (Inl err))\<rparr>)
      | _ \<Rightarrow> p)"

text \<open>The outcome of a promise, once it is settled.\<close>

definition outcome :: "promise_state \<Rightarrow> (thrown + client) option" where
  "outcome st =
     (case st of
        Pending \<Rightarrow> None
      | Fulfilled client \<Rightarrow> Some (Inr client)
      | Rejected err \<Rightarrow> Some (Inl err))"

text \<open>
  The promise of a call that ended with \<open>return pending\<close> settles. \<open>getClient\<close> is an
  \<open>async\<close> function, and the promise of an \<open>async\<close> function that returns a promise
  follows that promise: one job calls \<open>then\<close> on the returned promise, and the reaction
  that this registers settles the promise of the call, with the same outcome. The call
  that started the attempt registered its own reaction before, at its \<open>await\<close>, in the
  run that put the promise into \<open>connecting\<close>; the reactions of a promise run in the order
  in which they were registered. So the promise of the call settles only when the
  attempt is settled and the call that started the attempt has gone on behind its
  \<open>await\<close>, which has removed the promise from \<open>connecting\<close>. Where the job that calls
  \<open>then\<close> runs when the attempt is settled already, the reaction is put behind the jobs
  that are queued by then, and these run between the two, a call of \<open>getClient\<close> among
  them, as may be.
\<close>

definition getClient_follow :: "nat \<Rightarrow> pool \<Rightarrow> pool" where
  "getClient_follow i p =
     (case calls p i of
        Some (Adopted promise) \<Rightarrow>
          (case outcome (promise_of p promise) of
             None \<Rightarrow> p
           | Some r \<Rightarrow>
               if connecting p (fst (attempts p ! promise)) = Some promise then p
               else p\<lparr>calls := (calls p)(i \<mapsto> Finished r)\<rparr>)
      | _ \<Rightarrow> p)"

text \<open>
  The steps. \<open>Call i s\<close>: \<open>getClient(s)\<close> is called, under the fresh name \<open>i\<close>.
  \<open>Settle n None\<close>: attempt \<open>n\<close> succeeds, its promise is fulfilled with the client it
  created; \<open>Settle n (Some err)\<close>: it fails with \<open>err\<close>. \<open>Resume i\<close>: call \<open>i\<close> goes on
  behind its \<open>await\<close>. \<open>Follow i\<close>: the promise of call \<open>i\<close>, which returned the promise it
  found in \<open>connecting\<close>, settles. \<open>Stop_close s\<close>: one turn of the loop of \<open>stop\<close>, which
  closes the client of \<open>s\<close> and changes neither map. \<open>Stop_clear\<close>: the \<open>clients.clear()\<close>
  that ends \<open>stop\<close>. A step that is not enabled leaves the pool as it is.
\<close>

datatype event =
    Call nat string
  | Settle nat "thrown option"
  | Resume nat
  | Follow nat
  | Stop_close string
  | Stop_clear

definition step :: "PluginConfig \<Rightarrow> event \<Rightarrow> pool \<Rightarrow> pool" where
  "step config ev p =
     (case ev of
        Call i serverName \<Rightarrow>
          if calls p i = None then getClient_call config i serverName p else p
      | Settle n out \<Rightarrow>
          if n < length (attempts p) \<and> snd (attempts p ! n) = Pending
          then p\<lparr>attempts := (attempts p)
                  [n := (fst (attempts p ! n),
                         case out of None \<Rightarrow> Fulfilled n | Some err \<Rightarrow> Rejected err)]\<rparr>
          else p
      | Resume i \<Rightarrow> getClient_resume i p
      | Follow i \<Rightarrow> getClient_follow i p
      | Stop_close serverName \<Rightarrow>
          (case clients p serverName of
             Some client \<Rightarrow> p\<lparr>closed := closed p @ [client]\<rparr>
           | None \<Rightarrow> p)
      | Stop_clear \<Rightarrow> p\<lparr>clients := Map.empty\<rparr>)"

fun run :: "PluginConfig \<Rightarrow> event list \<Rightarrow> pool \<Rightarrow> pool" where
  "run config [] p = p"
| "run config (ev # evs) p = run config evs (step config ev p)"


text \<open>The number of calls of \<open>connectServer\<close> for a server so far.\<close>

definition connect_count :: "pool \<Rightarrow> string \<Rightarrow> nat" where
  "connect_count p serverName = length (filter (\<lambda>a. fst a = serverName) (attempts p))"

section \<open>Notions of the statements and of the proofs\<close>

subsection \<open>For the Name Resolver\<close>

text \<open>
  \<open>no_double\<close>: no two underscores stand side by side. \<open>clean_name\<close>: only characters of
  \<open>[a-zA-Z0-9_]\<close>, no two underscores side by side, no underscore at either end.
\<close>

fun no_double :: "string \<Rightarrow> bool" where
  "no_double (a # b # cs) \<longleftrightarrow> \<not> (a = CHR ''_'' \<and> b = CHR ''_'') \<and> no_double (b # cs)"
| "no_double _ \<longleftrightarrow> True"

definition clean_name :: "string \<Rightarrow> bool" where
  "clean_name s \<longleftrightarrow>
     (\<forall>c \<in> set s. is_word_char c) \<and> no_double s \<and>
     (s \<noteq> [] \<longrightarrow> hd s \<noteq> CHR ''_'' \<and> last s \<noteq> CHR ''_'')"

text \<open>An executable test for the occurrence of a placeholder.\<close>

fun scan_placeholder :: "string \<Rightarrow> bool" where
  "scan_placeholder [] \<longleftrightarrow> False"
| "scan_placeholder (c # cs) \<longleftrightarrow> match_placeholder (c # cs) \<noteq> None \<or> scan_placeholder cs"

subsection \<open>For the Tool Router\<close>

text \<open>The words of the specification: a value in the shape of a content array.\<close>

definition is_content_array :: "jsval \<Rightarrow> bool" where
  "is_content_array v \<longleftrightarrow> (case v of Arr items \<Rightarrow> True | _ \<Rightarrow> False)"

text \<open>
  The words of the specification: the version tag of a document and whether its
  \<open>servers\<close> field is a sequence. A document that is not an object has neither.
\<close>

definition version_tag :: "cache_doc \<Rightarrow> jsval" where
  "version_tag doc = (case doc of JsonObject v s \<Rightarrow> v | _ \<Rightarrow> Undefined)"

definition servers_is_sequence :: "cache_doc \<Rightarrow> bool" where
  "servers_is_sequence doc \<longleftrightarrow>
     (case doc of JsonObject v (ServerArray es) \<Rightarrow> True | _ \<Rightarrow> False)"

text \<open>What \<open>register\<close> hands to the host when it finds no cache.\<close>

definition nothing_registered :: host where
  "nothing_registered = \<lparr>registered = [], logged = [Warn_no_cache], service = False\<rparr>"

text \<open>
  A cache entry, a server configuration, a plugin configuration and cache files for the
  closed instances of the theorems.
\<close>

definition example_entry :: CacheEntry where
  "example_entry =
     \<lparr>server = ''srv'',
      tools = [\<lparr>name = ''ping'', description = None, inputSchema = None\<rparr>],
      discoveredAt = ''2026-01-01T00:00:00.000Z''\<rparr>"

definition example_server :: "bool option \<Rightarrow> ServerConfig" where
  "example_server p =
     \<lparr>command = Some ''run'', args = None, env = None, url = None, headers = None,
      enabled = None, toolPrefix = p\<rparr>"

definition example_config :: "bool option \<Rightarrow> PluginConfig" where
  "example_config p = \<lparr>servers = Some [''srv'' \<mapsto> example_server p], optional = None\<rparr>"

definition example_file :: cache_file where
  "example_file = Parsed (JsonObject (Num 1) (ServerArray [example_entry]))"

definition unnamed_entry :: CacheEntry where
  "unnamed_entry =
     \<lparr>server = ''srv'',
      tools = [\<lparr>name = ''---'', description = None, inputSchema = None\<rparr>],
      discoveredAt = ''2026-01-01T00:00:00.000Z''\<rparr>"

definition unnamed_server_entry :: CacheEntry where
  "unnamed_server_entry =
     \<lparr>server = ''::'',
      tools = [\<lparr>name = ''ping'', description = None, inputSchema = None\<rparr>],
      discoveredAt = ''2026-01-01T00:00:00.000Z''\<rparr>"

subsection \<open>For the Connection Pool\<close>

text \<open>No server has an entry in both maps.\<close>

definition exclusive :: "pool \<Rightarrow> bool" where
  "exclusive p \<longleftrightarrow> (\<forall>s. clients p s = None \<or> connecting p s = None)"

text \<open>The three states of the specification, and which of them holds for a server.\<close>

datatype session_state = No_session | Live_session client | Pending_connection nat

definition holds :: "pool \<Rightarrow> string \<Rightarrow> session_state \<Rightarrow> bool" where
  "holds p s st \<longleftrightarrow>
     (case st of
        No_session \<Rightarrow> clients p s = None \<and> connecting p s = None
      | Live_session c \<Rightarrow> clients p s = Some c
      | Pending_connection n \<Rightarrow> connecting p s = Some n)"


text \<open>The names of the calls in a list of steps, and the calls for one server.\<close>

definition call_ids :: "event list \<Rightarrow> nat list" where
  "call_ids evs = concat (map (\<lambda>ev. case ev of Call i s \<Rightarrow> [i] | _ \<Rightarrow> []) evs)"

definition callers :: "string \<Rightarrow> event list \<Rightarrow> nat set" where
  "callers s evs = {i. Call i s \<in> set evs}"



section \<open>Verification: Name Resolver\<close>

subsection \<open>The shape of a sanitized name\<close>

lemma replace_non_word_chars: "\<forall>c \<in> set (replace_non_word s). is_word_char c"
  by (auto simp: replace_non_word_def is_word_char_def)

lemma collapse_Nil_iff: "collapse_underscores s = [] \<longleftrightarrow> s = []"
  by (cases s) auto

lemma hd_collapse: "hd (collapse_underscores s) = hd s"
  by (cases s) auto

lemma set_collapse: "set (collapse_underscores s) \<subseteq> set s"
proof (induction s rule: collapse_underscores.induct)
  case 1
  then show ?case by simp
next
  case (2 c cs)
  have "set (dropWhile (\<lambda>x. x = CHR ''_'') cs) \<subseteq> set cs"
    by (simp add: set_dropWhileD subsetI)
  with 2 show ?case by auto
qed

lemma hd_dropWhile_us: "dropWhile (\<lambda>x. x = CHR ''_'') cs \<noteq> [] \<Longrightarrow>
   hd (dropWhile (\<lambda>x. x = CHR ''_'') cs) \<noteq> CHR ''_''"
  using hd_dropWhile [of "\<lambda>x. x = CHR ''_''" cs] by simp

lemma no_double_Cons: "no_double (a # s) \<longleftrightarrow> (s \<noteq> [] \<longrightarrow> \<not> (a = CHR ''_'' \<and> hd s = CHR ''_'')) \<and> no_double s"
  by (cases s) auto

lemma no_double_collapse: "no_double (collapse_underscores s)"
proof (induction s rule: collapse_underscores.induct)
  case 1
  then show ?case by simp
next
  case (2 c cs)
  show ?case
  proof (cases "c = CHR ''_''")
    case True
    with 2 show ?thesis
      by (simp add: no_double_Cons collapse_Nil_iff hd_collapse hd_dropWhile_us)
  next
    case False
    with 2 show ?thesis
      by (simp add: no_double_Cons)
  qed
qed

lemma no_double_butlast: "no_double s \<Longrightarrow> no_double (butlast s)"
  by (induction s rule: no_double.induct) (auto split: if_splits)

lemma no_double_last_butlast:
  "no_double s \<Longrightarrow> last s = CHR ''_'' \<Longrightarrow> butlast s \<noteq> [] \<Longrightarrow> last (butlast s) \<noteq> CHR ''_''"
  by (induction s rule: no_double.induct) (auto split: if_splits)

lemma hd_butlast: "butlast s \<noteq> [] \<Longrightarrow> hd (butlast s) = hd s"
  by (cases s) (auto split: if_splits)

lemma set_strip: "set (strip_underscores s) \<subseteq> set s"
  by (cases s) (auto simp: strip_underscores_def Let_def dest: in_set_butlastD)

lemma strip_clean:
  assumes "no_double s"
  shows "no_double (strip_underscores s)"
    and "strip_underscores s \<noteq> [] \<Longrightarrow>
         hd (strip_underscores s) \<noteq> CHR ''_'' \<and> last (strip_underscores s) \<noteq> CHR ''_''"
proof -
  define s1 where "s1 = (case s of [] \<Rightarrow> [] | c # cs \<Rightarrow> if c = CHR ''_'' then cs else s)"
  have eq: "strip_underscores s = (if s1 \<noteq> [] \<and> last s1 = CHR ''_'' then butlast s1 else s1)"
    by (simp add: strip_underscores_def s1_def)
  have nd1: "no_double s1"
    using assms by (cases s) (auto simp: s1_def no_double_Cons)
  have hd1: "s1 \<noteq> [] \<Longrightarrow> hd s1 \<noteq> CHR ''_''"
    using assms by (cases s) (auto simp: s1_def no_double_Cons)
  show "no_double (strip_underscores s)"
    using nd1 by (simp add: eq no_double_butlast)
  show "hd (strip_underscores s) \<noteq> CHR ''_'' \<and> last (strip_underscores s) \<noteq> CHR ''_''"
    if "strip_underscores s \<noteq> []"
    using that nd1 hd1 by (auto simp: eq hd_butlast no_double_last_butlast split: if_splits)
qed

lemma upper_shift: "is_upper c \<Longrightarrow> (of_char (char_of ((of_char c :: nat) + 32)) :: nat) = of_char c + 32"
  by (simp add: is_upper_def)

lemma lower_char_underscore: "lower_char c = CHR ''_'' \<longleftrightarrow> c = CHR ''_''"
proof (cases "is_upper c")
  case True
  have "(of_char (lower_char c) :: nat) = of_char c + 32"
    using True upper_shift [of c] by (simp add: lower_char_def)
  moreover have "(of_char (CHR ''_'') :: nat) = 95" by simp
  ultimately have "lower_char c \<noteq> CHR ''_''"
    using True by (auto simp: is_upper_def)
  moreover have "c \<noteq> CHR ''_''"
    using True by (auto simp: is_upper_def)
  ultimately show ?thesis by simp
next
  case False
  then show ?thesis by (simp add: lower_char_def)
qed

lemma no_double_lower: "no_double (map lower_char s) \<longleftrightarrow> no_double s"
  by (induction s rule: no_double.induct) (auto simp: lower_char_underscore)

lemma lower_char_word:
  assumes "is_word_char c"
  shows "is_word_char (lower_char c) \<and> \<not> is_upper (lower_char c)"
proof (cases "is_upper c")
  case True
  have "(of_char (lower_char c) :: nat) = of_char c + 32"
    using True upper_shift [of c] by (simp add: lower_char_def)
  then show ?thesis
    using True by (simp add: is_word_char_def is_upper_def is_lower_def)
next
  case False
  then show ?thesis using assms by (simp add: lower_char_def)
qed

lemma clean_sanitize: "clean_name (sanitize s) \<and> (\<forall>c \<in> set (sanitize s). \<not> is_upper c)"
proof -
  let ?t = "strip_underscores (collapse_underscores (replace_non_word s))"
  have w: "\<forall>c \<in> set ?t. is_word_char c"
    using replace_non_word_chars [of s] set_collapse [of "replace_non_word s"]
      set_strip [of "collapse_underscores (replace_non_word s)"] by blast
  have nd: "no_double ?t"
    by (simp add: strip_clean(1) no_double_collapse)
  have ends: "?t \<noteq> [] \<Longrightarrow> hd ?t \<noteq> CHR ''_'' \<and> last ?t \<noteq> CHR ''_''"
    by (rule strip_clean(2)) (simp_all add: no_double_collapse)
  show ?thesis
    unfolding clean_name_def sanitize_def toLowerCase_def
    using w nd ends
    by (auto simp: no_double_lower lower_char_word hd_map last_map lower_char_underscore)
qed

lemma replace_id: "\<forall>c \<in> set s. is_word_char c \<Longrightarrow> replace_non_word s = s"
  by (simp add: replace_non_word_def map_idI)

lemma collapse_id: "no_double s \<Longrightarrow> collapse_underscores s = s"
proof (induction s rule: collapse_underscores.induct)
  case 1
  then show ?case by simp
next
  case (2 c cs)
  then show ?case
    by (cases cs) (auto simp: no_double_Cons)
qed

lemma strip_id: "s \<noteq> [] \<longrightarrow> hd s \<noteq> CHR ''_'' \<and> last s \<noteq> CHR ''_'' \<Longrightarrow> strip_underscores s = s"
  by (cases s) (auto simp: strip_underscores_def)

lemma lower_id: "\<forall>c \<in> set s. \<not> is_upper c \<Longrightarrow> toLowerCase s = s"
  by (simp add: toLowerCase_def lower_char_def map_idI)

lemma sanitize_id: "clean_name s \<Longrightarrow> \<forall>c \<in> set s. \<not> is_upper c \<Longrightarrow> sanitize s = s"
  by (simp add: sanitize_def clean_name_def replace_id collapse_id strip_id lower_id)

text \<open>
  A string without any character of \<open>[a-zA-Z0-9_]\<close> becomes a run of underscores, then
  one underscore, then nothing.
\<close>

lemma sanitize_no_word_char:
  assumes "\<forall>c \<in> set s. \<not> is_word_char c"
  shows "sanitize s = []"
proof (cases s)
  case Nil
  then show ?thesis
    by (simp add: sanitize_def replace_non_word_def strip_underscores_def toLowerCase_def)
next
  case (Cons c cs)
  have all: "replace_non_word s = CHR ''_'' # map (\<lambda>c. CHR ''_'') cs"
    using assms Cons by (simp add: replace_non_word_def)
  have run: "dropWhile (\<lambda>x. x = CHR ''_'') (map (\<lambda>c. CHR ''_'') cs) = []"
    by simp
  have "collapse_underscores (replace_non_word s) = ''_''"
    by (simp add: all run)
  then show ?thesis
    by (simp add: sanitize_def strip_underscores_def toLowerCase_def)
qed

text \<open>
  C5. \<open>sanitizeToolName\<close> is a function of its three arguments alone (the source reads
  nothing else, and the embedding is a function of them); its character transform
  \<open>sanitize\<close> is idempotent; and for the server "Linear API" and the tool "list-issues"
  it yields "linear_api_list_issues" with the prefix and "list_issues" without.
\<close>

theorem sanitizeToolName_idempotent_examples:
  "sanitize (sanitize x) = sanitize x
   \<and> sanitizeToolName ''Linear API'' ''list-issues'' True = ''linear_api_list_issues''
   \<and> sanitizeToolName ''Linear API'' ''list-issues'' False = ''list_issues''"
proof -
  have idem: "sanitize (sanitize x) = sanitize x"
    using clean_sanitize [of x] by (simp add: sanitize_id)
  have with_prefix:
    "sanitizeToolName ''Linear API'' ''list-issues'' True = ''linear_api_list_issues''"
    by code_simp
  have without_prefix: "sanitizeToolName ''Linear API'' ''list-issues'' False = ''list_issues''"
    by code_simp
  from idem with_prefix without_prefix show ?thesis by simp
qed

subsection \<open>resolveEnvVars\<close>

lemma match_placeholder_at:
  assumes "valid_name varName"
  shows "match_placeholder (placeholder varName @ post) = Some (varName, post)"
proof -
  have all: "\<forall>x \<in> set varName. x \<noteq> CHR ''}''"
    using assms by (auto simp: valid_name_def)
  have tw: "takeWhile (\<lambda>x. x \<noteq> CHR ''}'') (varName @ CHR ''}'' # post) = varName"
    using all by simp
  have dw: "dropWhile (\<lambda>x. x \<noteq> CHR ''}'') (varName @ CHR ''}'' # post) = CHR ''}'' # post"
    using all by simp
  show ?thesis
    using assms tw dw by (simp add: match_placeholder_def placeholder_def valid_name_def)
qed

lemma match_placeholder_Some:
  assumes "match_placeholder s = Some (varName, rest)"
  shows "valid_name varName \<and> s = placeholder varName @ rest"
proof -
  from assms obtain r where s: "s = CHR ''$'' # CHR ''{'' # r"
    by (auto simp: match_placeholder_def split: list.splits if_splits)
  let ?P = "\<lambda>x. x \<noteq> CHR ''}''"
  from assms s have n: "varName = takeWhile ?P r" and ne: "varName \<noteq> []"
    and d: "dropWhile ?P r \<noteq> []" and rest: "rest = tl (dropWhile ?P r)"
    by (auto simp: match_placeholder_def Let_def split: if_splits)
  have "hd (dropWhile ?P r) = CHR ''}''"
    using d hd_dropWhile [of ?P r] by simp
  with d rest have dr: "dropWhile ?P r = CHR ''}'' # rest"
    by (cases "dropWhile ?P r") auto
  have "r = takeWhile ?P r @ dropWhile ?P r" by simp
  with n dr have r: "r = varName @ CHR ''}'' # rest" by simp
  have "CHR ''}'' \<notin> set varName"
    using n by (auto dest: set_takeWhileD)
  with ne r s show ?thesis
    by (simp add: valid_name_def placeholder_def)
qed

lemma starts_with_placeholder_iff:
  "starts_with_placeholder s \<longleftrightarrow> match_placeholder s \<noteq> None"
proof
  assume "starts_with_placeholder s"
  then show "match_placeholder s \<noteq> None"
    by (auto simp: starts_with_placeholder_def match_placeholder_at)
next
  assume "match_placeholder s \<noteq> None"
  then obtain varName rest where "match_placeholder s = Some (varName, rest)" by auto
  then show "starts_with_placeholder s"
    unfolding starts_with_placeholder_def using match_placeholder_Some by blast
qed

lemma resolve_placeholder:
  assumes "valid_name varName"
  shows "resolveEnvVars penv (placeholder varName @ post) =
         (case process_env penv varName of Some v \<Rightarrow> v | None \<Rightarrow> [])
         @ resolveEnvVars penv post"
proof -
  obtain c cs where eq: "placeholder varName @ post = c # cs"
    by (cases "placeholder varName @ post") (auto simp: placeholder_def)
  have "match_placeholder (c # cs) = Some (varName, post)"
    using match_placeholder_at [OF assms, of post] eq by simp
  then have "resolveEnvVars penv (c # cs) =
      (case process_env penv varName of Some v \<Rightarrow> v | None \<Rightarrow> [])
      @ resolveEnvVars penv post"
    by simp
  with eq show ?thesis by simp
qed

lemma resolve_literal:
  assumes "\<not> starts_with_placeholder (c # cs)"
  shows "resolveEnvVars penv (c # cs) = c # resolveEnvVars penv cs"
proof -
  from assms have "match_placeholder (c # cs) = None"
    unfolding starts_with_placeholder_iff by blast
  then show ?thesis by simp
qed

lemma resolve_identity:
  assumes "\<not> has_placeholder s"
  shows "resolveEnvVars penv s = s"
  using assms
proof (induction s)
  case Nil
  then show ?case by simp
next
  case (Cons c cs)
  have here: "\<not> starts_with_placeholder (c # cs)"
    using Cons.prems unfolding has_placeholder_def by (metis append_Nil)
  have later: "\<not> has_placeholder cs"
    using Cons.prems unfolding has_placeholder_def by (metis append_Cons)
  show ?case
    using resolve_literal [OF here] later Cons.IH by simp
qed

lemma has_placeholder_Nil: "\<not> has_placeholder []"
  by (simp add: has_placeholder_def starts_with_placeholder_def placeholder_def)

lemma has_placeholder_Cons:
  "has_placeholder (c # cs) \<longleftrightarrow> starts_with_placeholder (c # cs) \<or> has_placeholder cs"
proof
  assume "has_placeholder (c # cs)"
  then obtain pre suf where eq: "c # cs = pre @ suf" and st: "starts_with_placeholder suf"
    by (auto simp: has_placeholder_def)
  show "starts_with_placeholder (c # cs) \<or> has_placeholder cs"
  proof (cases pre)
    case Nil
    with eq st show ?thesis by simp
  next
    case (Cons a pre')
    with eq have "cs = pre' @ suf" by simp
    with st show ?thesis by (auto simp: has_placeholder_def)
  qed
next
  assume "starts_with_placeholder (c # cs) \<or> has_placeholder cs"
  then show "has_placeholder (c # cs)"
  proof
    assume "starts_with_placeholder (c # cs)"
    then show ?thesis unfolding has_placeholder_def by (metis append_Nil)
  next
    assume "has_placeholder cs"
    then show ?thesis unfolding has_placeholder_def by (metis append_Cons)
  qed
qed

lemma has_placeholder_scan: "has_placeholder s \<longleftrightarrow> scan_placeholder s"
  by (induction s) (simp_all add: has_placeholder_Nil has_placeholder_Cons starts_with_placeholder_iff)

text \<open>
  What the code does with a placeholder: the value of a variable that is set; nothing
  for a name that is neither set nor inherited; the text of the member for a name that
  is not set and is inherited. Other characters are copied, and a string in which no
  placeholder occurs is returned unchanged.
\<close>

lemma resolveEnvVars_placeholders:
  "(valid_name varName \<and> penv varName = Some v \<longrightarrow>
      resolveEnvVars penv (placeholder varName @ post) = v @ resolveEnvVars penv post)
   \<and> (valid_name varName \<and> penv varName = None \<and> \<not> inherited varName \<longrightarrow>
      resolveEnvVars penv (placeholder varName @ post) = resolveEnvVars penv post)
   \<and> (valid_name varName \<and> penv varName = None \<and> map_of Object_prototype varName = Some t \<longrightarrow>
      resolveEnvVars penv (placeholder varName @ post) = t @ resolveEnvVars penv post)
   \<and> (\<not> starts_with_placeholder (c # cs) \<longrightarrow>
      resolveEnvVars penv (c # cs) = c # resolveEnvVars penv cs)
   \<and> (\<not> has_placeholder s \<longrightarrow> resolveEnvVars penv s = s)"
proof -
  have "map_of Object_prototype varName = None" if "\<not> inherited varName"
    using that by (simp add: inherited_def map_of_eq_None_iff)
  then show ?thesis
    using resolve_placeholder [of varName penv post] resolve_literal [of c cs penv]
      resolve_identity [of s penv]
    by (auto simp: process_env_def)
qed


section \<open>Verification: Tool Router\<close>

subsection \<open>The handlers\<close>

lemma call_result_cases:
  "call_result stringify result =
     (if result = Undefined then Inl (TypeError_read ''undefined'' ''content'')
      else if result = Null then Inl (TypeError_read ''null'' ''content'')
      else Inr \<lparr>content = (if nullish (own_prop result ''content'')
                           then Arr [text_item (stringify result)]
                           else own_prop result ''content''),
               isError = (own_prop result ''isError'' = Bool True)\<rparr>)"
  by (cases result) (simp_all add: call_result_def read_prop_def)

text \<open>
  What the handlers return on a failure with a thrown value on which the reads of the
  \<open>catch\<close> clause succeed, be it the failure of \<open>getClient\<close> or that of \<open>callTool\<close>: one
  text item, which names the server and the remote tool, and the flag. In the eager
  variant a missing client gives one text item that names the server, and the flag.
\<close>

lemma execute_failure_results:
  "execute stringify serverName mcpToolName params (Inl (Thrown msg str)) callTool
     = Inr \<lparr>content = Arr [Obj [(''type'', Str ''text''),
                (''text'', Str (''MCP error ('' @ serverName @ ''/'' @ mcpToolName @ ''): ''
                                @ (case msg of Some m \<Rightarrow> m | None \<Rightarrow> str)))]],
            isError = True\<rparr>
   \<and> (callTool client mcpToolName params = Inl (Thrown msg str) \<longrightarrow>
        execute stringify serverName mcpToolName params (Inr client) callTool
          = Inr \<lparr>content = Arr [Obj [(''type'', Str ''text''),
                     (''text'', Str (''MCP error ('' @ serverName @ ''/'' @ mcpToolName @ ''): ''
                                     @ (case msg of Some m \<Rightarrow> m | None \<Rightarrow> str)))]],
                 isError = True\<rparr>
        \<and> execute_eager stringify serverName mcpToolName params (Some client) callTool
          = Inr \<lparr>content = Arr [Obj [(''type'', Str ''text''),
                     (''text'', Str (''MCP error ('' @ serverName @ ''/'' @ mcpToolName @ ''): ''
                                     @ (case msg of Some m \<Rightarrow> m | None \<Rightarrow> str)))]],
                 isError = True\<rparr>)
   \<and> execute_eager stringify serverName mcpToolName params None callTool
       = Inr \<lparr>content = Arr [Obj [(''type'', Str ''text''),
                  (''text'', Str (''Error: MCP server '' @ [CHR 0x27] @ serverName @ [CHR 0x27]
                                  @ '' is not connected''))]],
              isError = True\<rparr>"
  by (simp add: execute_def execute_eager_def catch_clause_def error_text_def text_item_def
      not_connected_def not_connected_text_def apostrophe_def)

text \<open>
  C2 holds of the code except where the thrown value is \<open>undefined\<close> or \<open>null\<close>. When
  \<open>callTool\<close> rejects with \<open>undefined\<close>, or \<open>getClient\<close> with \<open>null\<close>, the \<open>catch\<close> clause
  raises a \<open>TypeError\<close> on reading \<open>err.message\<close>, and the handler throws it instead of
  returning a result; so it is in both variants.
\<close>

theorem execute_throws_on_nullish_rejection:
  "execute (\<lambda>v. ''raw'') ''srv'' ''ping'' (Obj []) (Inr (0::nat)) (\<lambda>c n a. Inl Thrown_undefined)
     = Inl (Thrown
         (Some (''Cannot read properties of undefined (reading '' @ [CHR 0x27] @ ''message''
                @ [CHR 0x27] @ '')''))
         (''TypeError: Cannot read properties of undefined (reading '' @ [CHR 0x27]
          @ ''message'' @ [CHR 0x27] @ '')''))
   \<and> execute (\<lambda>v. ''raw'') ''srv'' ''ping'' (Obj []) (Inl Thrown_null :: thrown + nat)
        (\<lambda>c n a. Inr (Obj []))
     = Inl (Thrown
         (Some (''Cannot read properties of null (reading '' @ [CHR 0x27] @ ''message''
                @ [CHR 0x27] @ '')''))
         (''TypeError: Cannot read properties of null (reading '' @ [CHR 0x27]
          @ ''message'' @ [CHR 0x27] @ '')''))
   \<and> execute_eager (\<lambda>v. ''raw'') ''srv'' ''ping'' (Obj []) (Some (0::nat))
        (\<lambda>c n a. Inl Thrown_undefined)
     = Inl (Thrown
         (Some (''Cannot read properties of undefined (reading '' @ [CHR 0x27] @ ''message''
                @ [CHR 0x27] @ '')''))
         (''TypeError: Cannot read properties of undefined (reading '' @ [CHR 0x27]
          @ ''message'' @ [CHR 0x27] @ '')''))"
  by (simp add: execute_def execute_eager_def catch_clause_def TypeError_read_def Let_def apostrophe_def)

text \<open>
  C4, as stated, fails where the content of the result is present and is not an array:
  the string "plain" is passed on as it is and is not wrapped into a text item, in both
  variants. The operator \<open>??\<close> replaces only \<open>null\<close> and \<open>undefined\<close>.
\<close>

theorem execute_wraps_counterexample:
  "\<not> is_content_array (Str ''plain'')
   \<and> execute (\<lambda>v. ''raw'') ''srv'' ''ping'' (Obj []) (Inr (0::nat))
         (\<lambda>c n a. Inr (Obj [(''content'', Str ''plain'')]))
       = Inr \<lparr>content = Str ''plain'', isError = False\<rparr>
   \<and> execute_eager (\<lambda>v. ''raw'') ''srv'' ''ping'' (Obj []) (Some (0::nat))
         (\<lambda>c n a. Inr (Obj [(''content'', Str ''plain'')]))
       = Inr \<lparr>content = Str ''plain'', isError = False\<rparr>
   \<and> Str ''plain'' \<noteq> Arr [Obj [(''type'', Str ''text''), (''text'', Str ''raw'')]]"
  by (simp add: is_content_array_def own_prop_def execute_def execute_eager_def call_result_def
      read_prop_def nullish_def)

text \<open>
  C4, amended. Let the remote call succeed with a result. If the result is an object,
  the returned content is its \<open>content\<close>, unchanged, whenever that is present and neither
  \<open>null\<close> nor \<open>undefined\<close> (an array or not), and otherwise one text item with the
  stringified result; the returned flag is set exactly when its \<open>isError\<close> is the boolean
  \<open>true\<close>. If the result is a boolean, a number, a string or an array, the content is the
  one text item and the flag is not set. If the result is \<open>null\<close> or \<open>undefined\<close>, the
  handler returns the error result. This is so in both variants.
\<close>

theorem execute_success_result:
  "(callTool client mcpToolName params = Inr (Obj props)
      \<and> map_of props ''content'' = Some c \<and> c \<noteq> Null \<and> c \<noteq> Undefined \<longrightarrow>
        execute stringify serverName mcpToolName params (Inr client) callTool
          = Inr \<lparr>content = c, isError = (map_of props ''isError'' = Some (Bool True))\<rparr>
        \<and> execute_eager stringify serverName mcpToolName params (Some client) callTool
          = Inr \<lparr>content = c, isError = (map_of props ''isError'' = Some (Bool True))\<rparr>)
   \<and> (callTool client mcpToolName params = Inr (Obj props)
      \<and> (map_of props ''content'' = None \<or> map_of props ''content'' = Some Null
          \<or> map_of props ''content'' = Some Undefined) \<longrightarrow>
        execute stringify serverName mcpToolName params (Inr client) callTool
          = Inr \<lparr>content = Arr [Obj [(''type'', Str ''text''),
                                     (''text'', Str (stringify (Obj props)))]],
                 isError = (map_of props ''isError'' = Some (Bool True))\<rparr>
        \<and> execute_eager stringify serverName mcpToolName params (Some client) callTool
          = Inr \<lparr>content = Arr [Obj [(''type'', Str ''text''),
                                     (''text'', Str (stringify (Obj props)))]],
                 isError = (map_of props ''isError'' = Some (Bool True))\<rparr>)
   \<and> (callTool client mcpToolName params = Inr result
      \<and> ((\<exists>b. result = Bool b) \<or> (\<exists>k. result = Num k) \<or> (\<exists>t. result = Str t)
          \<or> (\<exists>items. result = Arr items)) \<longrightarrow>
        execute stringify serverName mcpToolName params (Inr client) callTool
          = Inr \<lparr>content = Arr [Obj [(''type'', Str ''text''), (''text'', Str (stringify result))]],
                 isError = False\<rparr>
        \<and> execute_eager stringify serverName mcpToolName params (Some client) callTool
          = Inr \<lparr>content = Arr [Obj [(''type'', Str ''text''), (''text'', Str (stringify result))]],
                 isError = False\<rparr>)
   \<and> (callTool client mcpToolName params = Inr Null \<longrightarrow>
        execute stringify serverName mcpToolName params (Inr client) callTool
          = Inr \<lparr>content = Arr [Obj [(''type'', Str ''text''),
                     (''text'', Str (''MCP error ('' @ serverName @ ''/'' @ mcpToolName
                        @ ''): Cannot read properties of null (reading '' @ [CHR 0x27]
                        @ ''content'' @ [CHR 0x27] @ '')''))]],
                 isError = True\<rparr>
        \<and> execute_eager stringify serverName mcpToolName params (Some client) callTool
          = Inr \<lparr>content = Arr [Obj [(''type'', Str ''text''),
                     (''text'', Str (''MCP error ('' @ serverName @ ''/'' @ mcpToolName
                        @ ''): Cannot read properties of null (reading '' @ [CHR 0x27]
                        @ ''content'' @ [CHR 0x27] @ '')''))]],
                 isError = True\<rparr>)
   \<and> (callTool client mcpToolName params = Inr Undefined \<longrightarrow>
        execute stringify serverName mcpToolName params (Inr client) callTool
          = Inr \<lparr>content = Arr [Obj [(''type'', Str ''text''),
                     (''text'', Str (''MCP error ('' @ serverName @ ''/'' @ mcpToolName
                        @ ''): Cannot read properties of undefined (reading '' @ [CHR 0x27]
                        @ ''content'' @ [CHR 0x27] @ '')''))]],
                 isError = True\<rparr>
        \<and> execute_eager stringify serverName mcpToolName params (Some client) callTool
          = Inr \<lparr>content = Arr [Obj [(''type'', Str ''text''),
                     (''text'', Str (''MCP error ('' @ serverName @ ''/'' @ mcpToolName
                        @ ''): Cannot read properties of undefined (reading '' @ [CHR 0x27]
                        @ ''content'' @ [CHR 0x27] @ '')''))]],
                 isError = True\<rparr>)"
proof (intro conjI impI)
  assume "callTool client mcpToolName params = Inr (Obj props)
      \<and> map_of props ''content'' = Some c \<and> c \<noteq> Null \<and> c \<noteq> Undefined"
  then show "execute stringify serverName mcpToolName params (Inr client) callTool
          = Inr \<lparr>content = c, isError = (map_of props ''isError'' = Some (Bool True))\<rparr>"
    and "execute_eager stringify serverName mcpToolName params (Some client) callTool
          = Inr \<lparr>content = c, isError = (map_of props ''isError'' = Some (Bool True))\<rparr>"
    by (auto simp: execute_def execute_eager_def call_result_cases own_prop_def nullish_def
        split: option.splits)
next
  assume "callTool client mcpToolName params = Inr (Obj props)
      \<and> (map_of props ''content'' = None \<or> map_of props ''content'' = Some Null
          \<or> map_of props ''content'' = Some Undefined)"
  then show "execute stringify serverName mcpToolName params (Inr client) callTool
          = Inr \<lparr>content = Arr [Obj [(''type'', Str ''text''),
                                     (''text'', Str (stringify (Obj props)))]],
                 isError = (map_of props ''isError'' = Some (Bool True))\<rparr>"
    and "execute_eager stringify serverName mcpToolName params (Some client) callTool
          = Inr \<lparr>content = Arr [Obj [(''type'', Str ''text''),
                                     (''text'', Str (stringify (Obj props)))]],
                 isError = (map_of props ''isError'' = Some (Bool True))\<rparr>"
    by (auto simp: execute_def execute_eager_def call_result_cases own_prop_def nullish_def
        text_item_def split: option.splits)
next
  assume "callTool client mcpToolName params = Inr result
      \<and> ((\<exists>b. result = Bool b) \<or> (\<exists>k. result = Num k) \<or> (\<exists>t. result = Str t)
          \<or> (\<exists>items. result = Arr items))"
  then show "execute stringify serverName mcpToolName params (Inr client) callTool
          = Inr \<lparr>content = Arr [Obj [(''type'', Str ''text''), (''text'', Str (stringify result))]],
                 isError = False\<rparr>"
    and "execute_eager stringify serverName mcpToolName params (Some client) callTool
          = Inr \<lparr>content = Arr [Obj [(''type'', Str ''text''), (''text'', Str (stringify result))]],
                 isError = False\<rparr>"
    by (auto simp: execute_def execute_eager_def call_result_cases own_prop_def nullish_def
        text_item_def)
next
  assume "callTool client mcpToolName params = Inr Null"
  then show "execute stringify serverName mcpToolName params (Inr client) callTool
          = Inr \<lparr>content = Arr [Obj [(''type'', Str ''text''),
                     (''text'', Str (''MCP error ('' @ serverName @ ''/'' @ mcpToolName
                        @ ''): Cannot read properties of null (reading '' @ [CHR 0x27]
                        @ ''content'' @ [CHR 0x27] @ '')''))]],
                 isError = True\<rparr>"
    and "execute_eager stringify serverName mcpToolName params (Some client) callTool
          = Inr \<lparr>content = Arr [Obj [(''type'', Str ''text''),
                     (''text'', Str (''MCP error ('' @ serverName @ ''/'' @ mcpToolName
                        @ ''): Cannot read properties of null (reading '' @ [CHR 0x27]
                        @ ''content'' @ [CHR 0x27] @ '')''))]],
                 isError = True\<rparr>"
    by (simp_all add: execute_def execute_eager_def call_result_cases catch_clause_def
        TypeError_read_def Let_def error_text_def text_item_def apostrophe_def)
next
  assume "callTool client mcpToolName params = Inr Undefined"
  then show "execute stringify serverName mcpToolName params (Inr client) callTool
          = Inr \<lparr>content = Arr [Obj [(''type'', Str ''text''),
                     (''text'', Str (''MCP error ('' @ serverName @ ''/'' @ mcpToolName
                        @ ''): Cannot read properties of undefined (reading '' @ [CHR 0x27]
                        @ ''content'' @ [CHR 0x27] @ '')''))]],
                 isError = True\<rparr>"
    and "execute_eager stringify serverName mcpToolName params (Some client) callTool
          = Inr \<lparr>content = Arr [Obj [(''type'', Str ''text''),
                     (''text'', Str (''MCP error ('' @ serverName @ ''/'' @ mcpToolName
                        @ ''): Cannot read properties of undefined (reading '' @ [CHR 0x27]
                        @ ''content'' @ [CHR 0x27] @ '')''))]],
                 isError = True\<rparr>"
    by (simp_all add: execute_def execute_eager_def call_result_cases catch_clause_def
        TypeError_read_def Let_def error_text_def text_item_def apostrophe_def)
qed

theorem execute_success_result_witness:
  "execute (\<lambda>v. ''raw'') ''srv'' ''ping'' (Obj []) (Inr (0::nat))
       (\<lambda>c n a. Inr (Obj [(''content'', Arr [Obj [(''type'', Str ''text''), (''text'', Str ''hi'')]]),
                           (''isError'', Bool True)]))
     = Inr \<lparr>content = Arr [Obj [(''type'', Str ''text''), (''text'', Str ''hi'')]],
            isError = True\<rparr>
   \<and> execute (\<lambda>v. ''raw'') ''srv'' ''ping'' (Obj []) (Inr (0::nat))
        (\<lambda>c n a. Inr (Obj [(''content'', Str ''plain'')]))
     = Inr \<lparr>content = Str ''plain'', isError = False\<rparr>
   \<and> execute (\<lambda>v. ''raw'') ''srv'' ''ping'' (Obj []) (Inr (0::nat))
        (\<lambda>c n a. Inr (Obj [(''toolResult'', Num 7)]))
     = Inr \<lparr>content = Arr [Obj [(''type'', Str ''text''), (''text'', Str ''raw'')]],
            isError = False\<rparr>
   \<and> execute (\<lambda>v. ''raw'') ''srv'' ''ping'' (Obj []) (Inr (0::nat)) (\<lambda>c n a. Inr (Num 7))
     = Inr \<lparr>content = Arr [Obj [(''type'', Str ''text''), (''text'', Str ''raw'')]],
            isError = False\<rparr>
   \<and> execute (\<lambda>v. ''raw'') ''srv'' ''ping'' (Obj []) (Inr (0::nat)) (\<lambda>c n a. Inr Null)
     = Inr \<lparr>content = Arr [Obj [(''type'', Str ''text''),
                (''text'', Str (''MCP error (srv/ping): Cannot read properties of null (reading ''
                                @ [CHR 0x27] @ ''content'' @ [CHR 0x27] @ '')''))]],
            isError = True\<rparr>
   \<and> execute_eager (\<lambda>v. ''raw'') ''srv'' ''ping'' (Obj []) (Some (0::nat))
        (\<lambda>c n a. Inr Undefined)
     = Inr \<lparr>content = Arr [Obj [(''type'', Str ''text''),
                (''text'', Str (''MCP error (srv/ping): Cannot read properties of undefined (reading ''
                                @ [CHR 0x27] @ ''content'' @ [CHR 0x27] @ '')''))]],
            isError = True\<rparr>"
proof -
  let ?hi = "Arr [Obj [(''type'', Str ''text''), (''text'', Str ''hi'')]]"
  let ?r1 = "Obj [(''content'', ?hi), (''isError'', Bool True)]"
  let ?r2 = "Obj [(''content'', Str ''plain'')]"
  let ?r3 = "Obj [(''toolResult'', Num 7)]"
  note w1 = execute_success_result
    [of "\<lambda>(c::nat) n a. Inr ?r1" 0 "''ping''" "Obj []"
      "[(''content'', ?hi), (''isError'', Bool True)]" ?hi "\<lambda>v. ''raw''" "''srv''" "Num 7"]
  note w2 = execute_success_result
    [of "\<lambda>(c::nat) n a. Inr ?r2" 0 "''ping''" "Obj []"
      "[(''content'', Str ''plain'')]" "Str ''plain''" "\<lambda>v. ''raw''" "''srv''" "Num 7"]
  note w3 = execute_success_result
    [of "\<lambda>(c::nat) n a. Inr ?r3" 0 "''ping''" "Obj []"
      "[(''toolResult'', Num 7)]" "Str ''plain''" "\<lambda>v. ''raw''" "''srv''" "Num 7"]
  note w4 = execute_success_result
    [of "\<lambda>(c::nat) n a. Inr (Num 7)" 0 "''ping''" "Obj []"
      "[]" "Str ''plain''" "\<lambda>v. ''raw''" "''srv''" "Num 7"]
  note w5 = execute_success_result
    [of "\<lambda>(c::nat) n a. Inr Null" 0 "''ping''" "Obj []"
      "[]" "Str ''plain''" "\<lambda>v. ''raw''" "''srv''" "Null"]
  have a: "execute (\<lambda>v. ''raw'') ''srv'' ''ping'' (Obj []) (Inr (0::nat)) (\<lambda>c n a. Inr ?r1)
      = Inr \<lparr>content = ?hi, isError = True\<rparr>"
    using w1 by simp
  have b: "execute (\<lambda>v. ''raw'') ''srv'' ''ping'' (Obj []) (Inr (0::nat)) (\<lambda>c n a. Inr ?r2)
      = Inr \<lparr>content = Str ''plain'', isError = False\<rparr>"
    using w2 by simp
  have c: "execute (\<lambda>v. ''raw'') ''srv'' ''ping'' (Obj []) (Inr (0::nat)) (\<lambda>c n a. Inr ?r3)
      = Inr \<lparr>content = Arr [Obj [(''type'', Str ''text''), (''text'', Str ''raw'')]],
             isError = False\<rparr>"
    using w3 by simp
  have d: "execute (\<lambda>v. ''raw'') ''srv'' ''ping'' (Obj []) (Inr (0::nat)) (\<lambda>c n a. Inr (Num 7))
      = Inr \<lparr>content = Arr [Obj [(''type'', Str ''text''), (''text'', Str ''raw'')]],
             isError = False\<rparr>"
    using w4 by simp
  have e: "execute (\<lambda>v. ''raw'') ''srv'' ''ping'' (Obj []) (Inr (0::nat)) (\<lambda>c n a. Inr Null)
      = Inr \<lparr>content = Arr [Obj [(''type'', Str ''text''),
                (''text'', Str (''MCP error (srv/ping): Cannot read properties of null (reading ''
                                @ [CHR 0x27] @ ''content'' @ [CHR 0x27] @ '')''))]],
            isError = True\<rparr>"
    using w5 by simp
  note w6 = execute_success_result
    [of "\<lambda>(c::nat) n a. Inr Undefined" 0 "''ping''" "Obj []"
      "[]" "Str ''plain''" "\<lambda>v. ''raw''" "''srv''" "Undefined"]
  have f: "execute_eager (\<lambda>v. ''raw'') ''srv'' ''ping'' (Obj []) (Some (0::nat))
        (\<lambda>c n a. Inr Undefined)
      = Inr \<lparr>content = Arr [Obj [(''type'', Str ''text''),
                (''text'', Str (''MCP error (srv/ping): Cannot read properties of undefined (reading ''
                                @ [CHR 0x27] @ ''content'' @ [CHR 0x27] @ '')''))]],
            isError = True\<rparr>"
    using w6 by simp
  from a b c d e f show ?thesis by simp
qed

subsection \<open>Registration\<close>

lemma loadCache_rejects:
  assumes "version_tag doc \<noteq> Num 1 \<or> \<not> servers_is_sequence doc"
  shows "loadCache (Parsed doc) = None"
proof (cases doc)
  case JsonNull
  then show ?thesis by (simp add: loadCache_def loadCache_try_def)
next
  case (JsonOther x)
  then show ?thesis by (simp add: loadCache_def loadCache_try_def)
next
  case (JsonObject v s)
  with assms show ?thesis
    by (cases s) (auto simp: loadCache_def loadCache_try_def version_tag_def servers_is_sequence_def)
qed

text \<open>
  C7. A parsed document whose version tag is not the number 1, or whose \<open>servers\<close> field
  is not an array, is treated as absent: \<open>loadCache\<close> yields no cache (the \<open>TypeError\<close> of
  a document that is \<open>null\<close> is caught), and \<open>register\<close> returns with no tool registered,
  one warning logged and no service.
\<close>

theorem rejected_cache_registers_nothing:
  "version_tag doc \<noteq> Num 1 \<or> \<not> servers_is_sequence doc \<longrightarrow>
     loadCache (Parsed doc) = None
     \<and> register config (Parsed doc) = nothing_registered
     \<and> registered (register config (Parsed doc)) = []"
  using loadCache_rejects [of doc]
  by (auto simp: register_def nothing_registered_def)

theorem rejected_cache_registers_nothing_witness:
  "version_tag (JsonObject (Num 2) (ServerArray [example_entry])) \<noteq> Num 1
   \<and> loadCache (Parsed (JsonObject (Num 2) (ServerArray [example_entry]))) = None
   \<and> register (example_config None) (Parsed (JsonObject (Num 2) (ServerArray [example_entry])))
       = nothing_registered
   \<and> \<not> servers_is_sequence (JsonObject (Num 1) (NotArray (Str ''none'')))
   \<and> register (example_config None) (Parsed (JsonObject (Num 1) (NotArray (Str ''none''))))
       = nothing_registered
   \<and> registered (register (example_config None)
        (Parsed (JsonObject (Num 1) (ServerArray [example_entry])))) \<noteq> []"
proof -
  have a: "version_tag (JsonObject (Num 2) (ServerArray [example_entry])) \<noteq> Num 1"
    by (simp add: version_tag_def)
  have b: "\<not> servers_is_sequence (JsonObject (Num 1) (NotArray (Str ''none'')))"
    by (simp add: servers_is_sequence_def)
  have c: "registered (register (example_config None)
        (Parsed (JsonObject (Num 1) (ServerArray [example_entry])))) \<noteq> []"
    by (simp add: register_def loadCache_def loadCache_try_def register_entry_def
        example_config_def example_entry_def example_server_def config_servers_def)
  show ?thesis
    using a b c
      rejected_cache_registers_nothing
        [of "JsonObject (Num 2) (ServerArray [example_entry])" "example_config None"]
      rejected_cache_registers_nothing
        [of "JsonObject (Num 1) (NotArray (Str ''none''))" "example_config None"]
    by simp
qed

lemma registered_deferred:
  assumes "r \<in> set (registered (register config file))"
  shows "\<exists>cache entry tool. loadCache file = Some cache \<and> entry \<in> set (entries cache)
           \<and> tool \<in> set (tools entry)
           \<and> tool_server r = server entry \<and> tool_remote r = name tool
           \<and> tool_description r = describe (server entry) tool"
proof -
  from assms obtain cache where c: "loadCache file = Some cache"
    and r: "r \<in> set (concat (map (register_entry config) (entries cache)))"
    by (auto simp: register_def Let_def split: option.splits if_splits)
  from r obtain entry where e: "entry \<in> set (entries cache)"
    and re: "r \<in> set (register_entry config entry)"
    by auto
  from re obtain tool usePrefix where t: "tool \<in> set (tools entry)"
    and rt: "r = register_tool (config_optional config) (server entry) usePrefix tool"
    by (auto simp: register_entry_def split: option.splits if_splits)
  from c e t rt show ?thesis
    by (auto simp: register_tool_def)
qed

lemma loadCache_Some:
  assumes "loadCache file = Some cache"
  shows "file = Parsed (JsonObject (Num 1) (ServerArray (entries cache)))"
proof (cases "file")
  case (Unreadable err)
  with assms show ?thesis by (simp add: loadCache_def loadCache_try_def)
next
  case (Malformed err)
  with assms show ?thesis by (simp add: loadCache_def loadCache_try_def)
next
  case (Parsed doc)
  show ?thesis
  proof (cases doc)
    case JsonNull
    with Parsed assms show ?thesis by (simp add: loadCache_def loadCache_try_def)
  next
    case (JsonOther v)
    with Parsed assms show ?thesis by (simp add: loadCache_def loadCache_try_def)
  next
    case (JsonObject v sf)
    with Parsed assms show ?thesis
      by (cases sf) (auto simp: loadCache_def loadCache_try_def split: if_splits)
  qed
qed

text \<open>
  The handlers of the deferred variant call \<open>getClient\<close> with the server name of their
  tool, which has a configuration.
\<close>

lemma registered_server_configured:
  assumes "r \<in> set (registered (register config file))"
  shows "config_servers config (tool_server r) \<noteq> None"
proof -
  from assms obtain cache where "loadCache file = Some cache"
    and r: "r \<in> set (concat (map (register_entry config) (entries cache)))"
    by (auto simp: register_def Let_def split: option.splits if_splits)
  from r obtain entry :: CacheEntry where e: "r \<in> set (register_entry config entry)"
    by auto
  then obtain serverConfig where c: "config_servers config (server entry) = Some serverConfig"
    by (cases "config_servers config (server entry)") (auto simp: register_entry_def)
  from e c have "tool_server r = server entry"
    by (auto simp: register_entry_def register_tool_def split: if_splits)
  with c show ?thesis by simp
qed

lemma sublist_back_reference:
  "sublist serverName (d @ '' (MCP: '' @ serverName @ ''/'' @ remoteName @ '')'')"
  "sublist remoteName (d @ '' (MCP: '' @ serverName @ ''/'' @ remoteName @ '')'')"
proof -
  have "d @ '' (MCP: '' @ serverName @ ''/'' @ remoteName @ '')''
      = (d @ '' (MCP: '') @ serverName @ (''/'' @ remoteName @ '')'')"
    by simp
  then show "sublist serverName (d @ '' (MCP: '' @ serverName @ ''/'' @ remoteName @ '')'')"
    unfolding sublist_def by blast
  have "d @ '' (MCP: '' @ serverName @ ''/'' @ remoteName @ '')''
      = (d @ '' (MCP: '' @ serverName @ ''/'') @ remoteName @ '')''"
    by simp
  then show "sublist remoteName (d @ '' (MCP: '' @ serverName @ ''/'' @ remoteName @ '')'')"
    unfolding sublist_def by blast
qed

text \<open>
  C8, amended. In the deferred variant nothing is registered unless the cache file holds
  a document of version 1 with an array of entries, and then every registered tool comes
  from a tool of one of the entries: its description is the description of that
  descriptor, or the default that names the server, then a space and the back-reference
  in brackets with the server name, a slash and the remote name, whatever \<open>toolPrefix\<close>
  is; so the description contains both names. In the eager variant every registered tool
  comes from a listed tool, and the back-reference has both names when the prefix is in
  use, and the server name alone when \<open>toolPrefix\<close> is \<open>false\<close>.
\<close>

theorem description_back_reference:
  "(\<forall>r \<in> set (registered (register config file)).
      \<exists>es. file = Parsed (JsonObject (Num 1) (ServerArray es))
        \<and> (\<exists>entry \<in> set es. \<exists>tool \<in> set (tools entry).
              tool_server r = server entry \<and> tool_remote r = name tool
              \<and> tool_description r =
                   (case description tool of Some d \<Rightarrow> d
                    | None \<Rightarrow> ''MCP tool from '' @ server entry)
                   @ '' (MCP: '' @ server entry @ ''/'' @ name tool @ '')''
              \<and> sublist (server entry) (tool_description r)
              \<and> sublist (name tool) (tool_description r)))
   \<and> (\<forall>r \<in> set (register_eager config serverName serverConfig listed).
      \<exists>tool \<in> set listed. tool_remote r = name tool \<and> tool_server r = serverName
        \<and> tool_description r =
             (case description tool of Some d \<Rightarrow> d | None \<Rightarrow> ''MCP tool from '' @ serverName)
             @ (if toolPrefix serverConfig \<noteq> Some False
                then '' (MCP: '' @ serverName @ ''/'' @ name tool @ '')''
                else '' (MCP: '' @ serverName @ '')''))"
proof (intro conjI ballI)
  fix r
  assume "r \<in> set (registered (register config file))"
  from registered_deferred [OF this] obtain cache :: Cache and entry :: CacheEntry
    and tool :: CachedTool
    where c: "loadCache file = Some cache" and e: "entry \<in> set (entries cache)"
      and t: "tool \<in> set (tools entry)"
      and r: "tool_server r = server entry" "tool_remote r = name tool"
      and d: "tool_description r = describe (server entry) tool"
    by blast
  from d have d': "tool_description r =
      (case description tool of Some d \<Rightarrow> d | None \<Rightarrow> ''MCP tool from '' @ server entry)
      @ '' (MCP: '' @ server entry @ ''/'' @ name tool @ '')''"
    by (simp add: describe_def)
  have "sublist (server entry) (tool_description r)" "sublist (name tool) (tool_description r)"
    unfolding d' by (rule sublist_back_reference)+
  with loadCache_Some [OF c] e t r d'
  show "\<exists>es. file = Parsed (JsonObject (Num 1) (ServerArray es))
        \<and> (\<exists>entry \<in> set es. \<exists>tool \<in> set (tools entry).
              tool_server r = server entry \<and> tool_remote r = name tool
              \<and> tool_description r =
                   (case description tool of Some d \<Rightarrow> d
                    | None \<Rightarrow> ''MCP tool from '' @ server entry)
                   @ '' (MCP: '' @ server entry @ ''/'' @ name tool @ '')''
              \<and> sublist (server entry) (tool_description r)
              \<and> sublist (name tool) (tool_description r))"
    by blast
next
  fix r
  assume "r \<in> set (register_eager config serverName serverConfig listed)"
  then show "\<exists>tool \<in> set listed. tool_remote r = name tool \<and> tool_server r = serverName
        \<and> tool_description r =
             (case description tool of Some d \<Rightarrow> d | None \<Rightarrow> ''MCP tool from '' @ serverName)
             @ (if toolPrefix serverConfig \<noteq> Some False
                then '' (MCP: '' @ serverName @ ''/'' @ name tool @ '')''
                else '' (MCP: '' @ serverName @ '')'')"
    by (auto simp: register_eager_def Let_def describe_eager_def)
qed

text \<open>
  C8, as stated, fails in the eager variant: with \<open>toolPrefix: false\<close> the description of
  the tool "ping" of the server "srv" does not contain the remote name.
\<close>

theorem description_back_reference_counterexample:
  "map tool_description (register_eager (example_config (Some False)) ''srv''
       (example_server (Some False)) (tools example_entry))
     = [''MCP tool from srv (MCP: srv)'']
   \<and> map tool_remote (register_eager (example_config (Some False)) ''srv''
       (example_server (Some False)) (tools example_entry))
     = [''ping'']
   \<and> \<not> sublist ''ping'' ''MCP tool from srv (MCP: srv)''"
proof -
  have "\<not> sublist ''ping'' ''MCP tool from srv (MCP: srv)''"
    by code_simp
  then show ?thesis
    by (simp add: register_eager_def example_server_def example_entry_def describe_eager_def)
qed

lemma example_registered:
  "registered (register (example_config p) example_file) =
     [register_tool False ''srv'' (p \<noteq> Some False)
        \<lparr>name = ''ping'', description = None, inputSchema = None\<rparr>]"
  by (simp add: register_def loadCache_def loadCache_try_def register_entry_def example_file_def
      example_config_def example_entry_def example_server_def config_servers_def
      config_optional_def)

theorem description_back_reference_witness:
  "map tool_description (registered (register (example_config (Some False)) example_file))
     = [''MCP tool from srv (MCP: srv/ping)'']
   \<and> list_all (\<lambda>r. \<exists>es. example_file = Parsed (JsonObject (Num 1) (ServerArray es))
        \<and> (\<exists>entry \<in> set es. \<exists>tool \<in> set (tools entry).
              tool_server r = server entry \<and> tool_remote r = name tool
              \<and> tool_description r =
                   (case description tool of Some d \<Rightarrow> d
                    | None \<Rightarrow> ''MCP tool from '' @ server entry)
                   @ '' (MCP: '' @ server entry @ ''/'' @ name tool @ '')''
              \<and> sublist (server entry) (tool_description r)
              \<and> sublist (name tool) (tool_description r)))
       (registered (register (example_config (Some False)) example_file))
   \<and> map tool_description (register_eager (example_config None) ''srv'' (example_server None)
        (tools example_entry))
     = [''MCP tool from srv (MCP: srv/ping)'']
   \<and> list_all (\<lambda>r. \<exists>tool \<in> set (tools example_entry).
          tool_remote r = name tool \<and> tool_server r = ''srv''
        \<and> tool_description r =
             (case description tool of Some d \<Rightarrow> d | None \<Rightarrow> ''MCP tool from '' @ ''srv'')
             @ (if toolPrefix (example_server None) \<noteq> Some False
                then '' (MCP: '' @ ''srv'' @ ''/'' @ name tool @ '')''
                else '' (MCP: '' @ ''srv'' @ '')''))
       (register_eager (example_config None) ''srv'' (example_server None) (tools example_entry))"
proof -
  have d1: "map tool_description (registered (register (example_config (Some False)) example_file))
     = [''MCP tool from srv (MCP: srv/ping)'']"
    by (simp add: example_registered register_tool_def describe_def)
  have d2: "map tool_description (register_eager (example_config None) ''srv''
       (example_server None) (tools example_entry))
     = [''MCP tool from srv (MCP: srv/ping)'']"
    by (simp add: register_eager_def example_server_def example_entry_def describe_eager_def)
  note t1 = description_back_reference
        [of "example_config (Some False)" example_file "''srv''" "example_server None"
          "tools example_entry"]
  note t2 = description_back_reference
        [of "example_config None" example_file "''srv''" "example_server None"
          "tools example_entry"]
  from t1 have a: "list_all (\<lambda>r. \<exists>es. example_file = Parsed (JsonObject (Num 1) (ServerArray es))
        \<and> (\<exists>entry \<in> set es. \<exists>tool \<in> set (tools entry).
              tool_server r = server entry \<and> tool_remote r = name tool
              \<and> tool_description r =
                   (case description tool of Some d \<Rightarrow> d
                    | None \<Rightarrow> ''MCP tool from '' @ server entry)
                   @ '' (MCP: '' @ server entry @ ''/'' @ name tool @ '')''
              \<and> sublist (server entry) (tool_description r)
              \<and> sublist (name tool) (tool_description r)))
       (registered (register (example_config (Some False)) example_file))"
    unfolding list_all_iff by (rule conjunct1)
  from t2 have b: "list_all (\<lambda>r. \<exists>tool \<in> set (tools example_entry).
          tool_remote r = name tool \<and> tool_server r = ''srv''
        \<and> tool_description r =
             (case description tool of Some d \<Rightarrow> d | None \<Rightarrow> ''MCP tool from '' @ ''srv'')
             @ (if toolPrefix (example_server None) \<noteq> Some False
                then '' (MCP: '' @ ''srv'' @ ''/'' @ name tool @ '')''
                else '' (MCP: '' @ ''srv'' @ '')''))
       (register_eager (example_config None) ''srv'' (example_server None) (tools example_entry))"
    unfolding list_all_iff by (rule conjunct2)
  from d1 a d2 b show ?thesis by (intro conjI)
qed

subsection \<open>Names that are empty or start with an underscore\<close>

text \<open>
  C10. A remote name without any character of \<open>[a-zA-Z0-9_]\<close>, such as "---", gives the
  empty name when the prefix is not in use; a server name without any such character
  gives, with the prefix, a name that starts with an underscore: the underscore that
  joins the two parts, which is not sanitized again. These are the names under which
  \<open>register\<close> registers such tools.
\<close>

theorem sanitizeToolName_empty_or_underscore:
  "((\<forall>c \<in> set toolName. \<not> is_word_char c) \<longrightarrow>
      sanitizeToolName serverName toolName False = [])
   \<and> ((\<forall>c \<in> set serverName. \<not> is_word_char c) \<longrightarrow>
      sanitizeToolName serverName toolName True = CHR ''_'' # sanitize toolName)
   \<and> sanitizeToolName serverName ''---'' False = []
   \<and> ((\<forall>c \<in> set (name tool). \<not> is_word_char c) \<longrightarrow>
      tool_name (register_tool optionalTools serverName False tool) = [])
   \<and> ((\<forall>c \<in> set serverName. \<not> is_word_char c) \<longrightarrow>
      tool_name (register_tool optionalTools serverName True tool)
        = CHR ''_'' # sanitize (name tool))"
proof -
  have "\<forall>c \<in> set ''---''. \<not> is_word_char c"
    by (simp add: is_word_char_def is_lower_def is_upper_def is_digit_def)
  then have "sanitize ''---'' = []"
    by (rule sanitize_no_word_char)
  then show ?thesis
    using sanitize_no_word_char [of toolName] sanitize_no_word_char [of serverName]
      sanitize_no_word_char [of "name tool"]
    by (simp add: sanitizeToolName_def register_tool_def)
qed

theorem sanitizeToolName_empty_or_underscore_witness:
  "\<not> (\<exists>c \<in> set ''---''. is_word_char c)
   \<and> sanitizeToolName ''srv'' ''---'' False = []
   \<and> \<not> (\<exists>c \<in> set ''::''. is_word_char c)
   \<and> sanitizeToolName ''::'' ''ping'' True = ''_ping''
   \<and> map tool_name (registered (register (example_config (Some False))
         (Parsed (JsonObject (Num 1) (ServerArray [unnamed_entry])))))
       = [[]]
   \<and> map tool_name (registered (register
         \<lparr>servers = Some [''::'' \<mapsto> example_server None], optional = None\<rparr>
         (Parsed (JsonObject (Num 1) (ServerArray [unnamed_server_entry])))))
       = [''_ping'']"
proof -
  have h1: "\<forall>c \<in> set ''---''. \<not> is_word_char c"
    and h2: "\<forall>c \<in> set ''::''. \<not> is_word_char c"
    by (simp_all add: is_word_char_def is_lower_def is_upper_def is_digit_def)
  have ping: "sanitize ''ping'' = ''ping''"
    by code_simp
  have n1: "sanitizeToolName ''srv'' ''---'' False = []"
    using h1 sanitizeToolName_empty_or_underscore [of "''---''" "''srv''"] by blast
  have n2: "sanitizeToolName ''::'' ''ping'' True = ''_ping''"
    using h2 ping sanitizeToolName_empty_or_underscore [of "''ping''" "''::''"] by simp
  have r1: "map tool_name (registered (register (example_config (Some False))
         (Parsed (JsonObject (Num 1) (ServerArray [unnamed_entry]))))) = [[]]"
    using n1
    by (simp add: register_def loadCache_def loadCache_try_def register_entry_def
        example_config_def unnamed_entry_def example_server_def config_servers_def
        register_tool_def)
  have r2: "map tool_name (registered (register
         \<lparr>servers = Some [''::'' \<mapsto> example_server None], optional = None\<rparr>
         (Parsed (JsonObject (Num 1) (ServerArray [unnamed_server_entry]))))) = [''_ping'']"
    using n2
    by (simp add: register_def loadCache_def loadCache_try_def register_entry_def
        unnamed_server_entry_def example_server_def config_servers_def register_tool_def)
  from h1 h2 n1 n2 r1 r2 show ?thesis by simp
qed

section \<open>Verification: Connection Pool\<close>

subsection \<open>A server is never both connected and connecting\<close>

lemma exclusive_init: "exclusive init"
  by (simp add: exclusive_def init_def)

lemma exclusive_call:
  assumes "exclusive p"
  shows "exclusive (getClient_call config i serverName p)"
  using assms
  by (auto simp: exclusive_def getClient_call_def Let_def split: option.splits)

lemma exclusive_resume:
  assumes "exclusive p"
  shows "exclusive (getClient_resume i p)"
  using assms
  by (auto simp: exclusive_def getClient_resume_def
      split: option.splits call_state.splits promise_state.splits)


lemma follow_keeps:
  "clients (getClient_follow i p) = clients p"
  "connecting (getClient_follow i p) = connecting p"
  "attempts (getClient_follow i p) = attempts p"
  "closed (getClient_follow i p) = closed p"
  by (simp_all add: getClient_follow_def split: option.splits call_state.splits)



lemma exclusive_step:
  assumes "exclusive p"
  shows "exclusive (step config ev p)"
proof (cases ev)
  case (Call i serverName)
  with assms show ?thesis by (simp add: step_def exclusive_call)
next
  case (Settle n out)
  with assms show ?thesis by (simp add: step_def exclusive_def)
next
  case (Resume i)
  with assms show ?thesis by (simp add: step_def exclusive_resume)
next
  case (Follow i)
  with assms show ?thesis by (simp add: step_def exclusive_def follow_keeps)
next
  case (Stop_close serverName)
  with assms show ?thesis by (simp add: step_def exclusive_def split: option.splits)
next
  case Stop_clear
  with assms show ?thesis by (simp add: step_def exclusive_def)
qed

lemma exclusive_run: "exclusive p \<Longrightarrow> exclusive (run config evs p)"
  by (induction evs arbitrary: p) (simp_all add: exclusive_step)

text \<open>
  C9. In every state that the pool reaches from its initial state by calls of
  \<open>getClient\<close>, settled attempts, resumed calls, calls whose promise follows and the steps
  of \<open>stop\<close>, no server has an entry in both maps; so exactly one of the three states holds for it: no session, a
  live session, or a pending connection.
\<close>

theorem session_states_exclusive:
  "(clients (run config evs init) s = None \<or> connecting (run config evs init) s = None)
   \<and> (\<exists>!st. holds (run config evs init) s st)"
proof -
  let ?p = "run config evs init"
  have ex: "clients ?p s = None \<or> connecting ?p s = None"
    using exclusive_run [OF exclusive_init, of config evs] by (simp add: exclusive_def)
  have "\<exists>!st. holds ?p s st"
  proof (cases "clients ?p s")
    case None
    show ?thesis
    proof (cases "connecting ?p s")
      case None
      with \<open>clients ?p s = None\<close> have "holds ?p s No_session"
        by (simp add: holds_def)
      moreover have "st = No_session" if "holds ?p s st" for st
        using that None \<open>clients ?p s = None\<close> by (cases st) (simp_all add: holds_def)
      ultimately show ?thesis by blast
    next
      case (Some n)
      then have "holds ?p s (Pending_connection n)"
        by (simp add: holds_def)
      moreover have "st = Pending_connection n" if "holds ?p s st" for st
        using that Some \<open>clients ?p s = None\<close> by (cases st) (simp_all add: holds_def)
      ultimately show ?thesis by blast
    qed
  next
    case (Some c)
    with ex have nc: "connecting ?p s = None" by simp
    from Some have "holds ?p s (Live_session c)"
      by (simp add: holds_def)
    moreover have "st = Live_session c" if "holds ?p s st" for st
      using that Some nc by (cases st) (simp_all add: holds_def)
    ultimately show ?thesis by blast
  qed
  with ex show ?thesis by simp
qed

subsection \<open>The owner of an attempt\<close>































subsection \<open>Concurrent calls share one attempt\<close>



lemma callers_Cons:
  "callers s (ev # evs) = (if \<exists>i. ev = Call i s then {i. ev = Call i s} else {}) \<union> callers s evs"
  by (auto simp: callers_def)

lemma callers_subset_ids: "callers s evs \<subseteq> set (call_ids evs)"
  by (force simp: callers_def call_ids_def)

lemma connect_count_append:
  "connect_count (p\<lparr>attempts := attempts p @ [(t, st)]\<rparr>) s
     = connect_count p s + (if t = s then 1 else 0)"
  by (simp add: connect_count_def)



















end
